theory Spec2Isabelle
  imports Complex_Main "HOL-Library.Sublist" "HOL-Library.AList"
begin

section \<open>Values of the two scripting surfaces\<close>

text \<open>
  A JavaScript number is an IEEE double. The tracking primitives only compare a number
  with zero and store it, so a number is modelled by its mathematical value: a finite
  double is a rational, and the three special values are kept apart.
\<close>

datatype number = Finite rat | NaN | PosInfinity | NegInfinity

text \<open>\<open>n <= 0\<close> on numbers: every comparison with \<open>NaN\<close> is false.\<close>

fun num_le_zero :: "number \<Rightarrow> bool" where
  "num_le_zero (Finite r) = (r \<le> 0)"
| "num_le_zero NaN = False"
| "num_le_zero PosInfinity = False"
| "num_le_zero NegInfinity = True"

datatype jsval =
    JUndefined
  | JNull
  | JBool bool
  | JNum number
  | JStr string
  | JArr "jsval list"
  | JObj "(string \<times> jsval) list"

text \<open>The \<open>typeof\<close> operator (arrays and \<open>null\<close> are objects).\<close>

fun typeof :: "jsval \<Rightarrow> string" where
  "typeof JUndefined = ''undefined''"
| "typeof JNull = ''object''"
| "typeof (JBool b) = ''boolean''"
| "typeof (JNum n) = ''number''"
| "typeof (JStr s) = ''string''"
| "typeof (JArr xs) = ''object''"
| "typeof (JObj ps) = ''object''"

text \<open>Truthiness, as \<open>!v\<close> reads it.\<close>

fun truthy :: "jsval \<Rightarrow> bool" where
  "truthy JUndefined = False"
| "truthy JNull = False"
| "truthy (JBool b) = b"
| "truthy (JNum n) = (n \<noteq> Finite 0 \<and> n \<noteq> NaN)"
| "truthy (JStr s) = (s \<noteq> [])"
| "truthy (JArr xs) = True"
| "truthy (JObj ps) = True"

fun isArray :: "jsval \<Rightarrow> bool" where
  "isArray (JArr xs) = True"
| "isArray _ = False"

text \<open>
  Reading a property \<open>e.k\<close>: an object is a list of its own properties, the first
  binding of a key counts; anything without the property reads as \<open>undefined\<close>.
\<close>

fun get_prop :: "jsval \<Rightarrow> string \<Rightarrow> jsval" where
  "get_prop (JObj ps) k = (case map_of ps k of Some v \<Rightarrow> v | None \<Rightarrow> JUndefined)"
| "get_prop _ k = JUndefined"

fun str_of :: "jsval \<Rightarrow> string" where
  "str_of (JStr s) = s"
| "str_of _ = []"

fun num_of :: "jsval \<Rightarrow> number" where
  "num_of (JNum n) = n"
| "num_of _ = NaN"

text \<open>Python values, as far as \<open>isinstance\<close> in the tracking primitives tells them apart.\<close>

datatype pyval =
    PNone
  | PBool bool
  | PInt int
  | PFloat number
  | PStr string
  | PList "pyval list"

fun is_str :: "pyval \<Rightarrow> bool" where
  "is_str (PStr s) = True"
| "is_str _ = False"

text \<open>\<open>isinstance(v, (int, float))\<close>: \<open>bool\<close> is a subclass of \<open>int\<close>.\<close>

fun is_int_or_float :: "pyval \<Rightarrow> bool" where
  "is_int_or_float (PBool b) = True"
| "is_int_or_float (PInt i) = True"
| "is_int_or_float (PFloat x) = True"
| "is_int_or_float _ = False"

text \<open>\<open>v <= 0\<close> for a value that passed \<open>is_int_or_float\<close>.\<close>

fun py_le_zero :: "pyval \<Rightarrow> bool" where
  "py_le_zero (PBool b) = (\<not> b)"
| "py_le_zero (PInt i) = (i \<le> 0)"
| "py_le_zero (PFloat x) = num_le_zero x"
| "py_le_zero _ = False"

text \<open>
  \<open>int(v)\<close>: truncation toward zero on a finite float; \<open>ValueError\<close> on NaN and
  \<open>OverflowError\<close> on an infinity.
\<close>

fun py_int :: "pyval \<Rightarrow> string + int" where
  "py_int (PBool b) = Inr (if b then 1 else 0)"
| "py_int (PInt i) = Inr i"
| "py_int (PFloat (Finite r)) = Inr (if 0 \<le> r then \<lfloor>r\<rfloor> else \<lceil>r\<rceil>)"
| "py_int (PFloat NaN) = Inl ''cannot convert float NaN to integer''"
| "py_int (PFloat PosInfinity) = Inl ''cannot convert float infinity to integer''"
| "py_int (PFloat NegInfinity) = Inl ''cannot convert float infinity to integer''"
| "py_int v = Inl ''int() argument must be a string, a bytes-like object or a real number''"

fun str_of_py :: "pyval \<Rightarrow> string" where
  "str_of_py (PStr s) = s"
| "str_of_py _ = []"

section \<open>Decimal rendering of the event-time counter\<close>

definition digit_char :: "nat \<Rightarrow> char" where
  "digit_char d = ''0123456789'' ! d"

fun string_of_nat :: "nat \<Rightarrow> string" where
  "string_of_nat n =
     (if n < 10 then [digit_char n] else string_of_nat (n div 10) @ [digit_char (n mod 10)])"

declare string_of_nat.simps [simp del]


section \<open>The runtime the instrumented program carries\<close>

text \<open>
  One recorded event. The JavaScript object literal and the Python dict have the same
  keys; only the type of \<open>size\<close> differs (a number, or the \<open>int\<close> that \<open>int(size)\<close>
  returns), so it is a parameter. A key that the literal does not write is \<open>None\<close>.
\<close>

record 'sz MemoryEvent =
  time :: nat
  action :: string
  ev_id :: "string option"
  ev_size :: "'sz option"
  ev_label :: "string option"

definition MAX_EVENTS :: nat where
  "MAX_EVENTS = 10000"

definition limit_message :: string where
  "limit_message = ''Event limit reached (10,000). Reduce allocations.''"

text \<open>\<open>xs.join(sep)\<close>\<close>

fun join :: "string \<Rightarrow> string list \<Rightarrow> string" where
  "join sep [] = []"
| "join sep [x] = x"
| "join sep (x # y # ys) = x @ sep @ join sep (y # ys)"

subsection \<open>JavaScript surface\<close>

text \<open>
  The variables of the instrumented script: \<open>__events\<close>, \<open>__allocs\<close> (a \<open>Map\<close>, kept
  as an association list in insertion order), \<open>__stdout\<close>, \<open>__stderr\<close>, \<open>__time\<close>.
  The counter never passes 10001, so it is exact as a double and modelled by \<open>nat\<close>.
\<close>

record js_state =
  js_events :: "number MemoryEvent list"
  js_allocs :: "(string \<times> (string \<times> number)) list"
  js_stdout :: "string list"
  js_stderr :: "string list"
  js_time :: nat

definition js_init :: js_state where
  "js_init = \<lparr>js_events = [], js_allocs = [], js_stdout = [], js_stderr = [], js_time = 0\<rparr>"

text \<open>
  \<open>alloc(label, size)\<close>: a thrown \<open>Error\<close> is \<open>Inl\<close> of its message, a return is
  \<open>Inr\<close> of the returned id and the state after the call.
\<close>

definition js_alloc :: "jsval \<Rightarrow> jsval \<Rightarrow> js_state \<Rightarrow> string + (string \<times> js_state)" where
  "js_alloc label sz s =
     (if typeof label \<noteq> ''string'' then Inl ''alloc: label must be a string''
      else if typeof sz \<noteq> ''number'' \<or> num_le_zero (num_of sz)
        then Inl ''alloc: size must be a positive number''
      else if length (js_events s) \<ge> MAX_EVENTS then Inl limit_message
      else
        let t = js_time s + 1;
            i = str_of label @ ''_'' @ string_of_nat t
        in Inr (i, s\<lparr>js_time := t,
             js_allocs := AList.update i (str_of label, num_of sz) (js_allocs s),
             js_events := js_events s @
               [\<lparr>time = t, action = ''alloc'', ev_id = Some i,
                 ev_size = Some (num_of sz), ev_label = Some (str_of label)\<rparr>]\<rparr>))"

definition js_free :: "jsval \<Rightarrow> js_state \<Rightarrow> string + js_state" where
  "js_free i s =
     (if typeof i \<noteq> ''string'' then Inl ''free: id must be a string returned by alloc()''
      else if length (js_events s) \<ge> MAX_EVENTS then Inl limit_message
      else
        let t = js_time s + 1 in
        if map_of (js_allocs s) (str_of i) = None
        then Inr (s\<lparr>js_time := t,
               js_events := js_events s @
                 [\<lparr>time = t, action = ''double_free'', ev_id = Some (str_of i),
                   ev_size = None, ev_label = None\<rparr>]\<rparr>)
        else Inr (s\<lparr>js_time := t,
               js_allocs := AList.delete (str_of i) (js_allocs s),
               js_events := js_events s @
                 [\<lparr>time = t, action = ''free'', ev_id = Some (str_of i),
                   ev_size = None, ev_label = None\<rparr>]\<rparr>))"

text \<open>
  User code, as the sequence of calls it makes on the injected API, each with the
  argument values it passes: the two tracking primitives and the output shims
  (\<open>print\<close>, \<open>log\<close> and \<open>console.log\<close> write to stdout, \<open>console.error\<close> and
  \<open>console.warn\<close> to stderr; the arguments are given as already converted by
  \<open>String\<close>).
\<close>

datatype js_call =
    JsAlloc jsval jsval
  | JsFree jsval
  | JsLog "string list"
  | JsErr "string list"

fun js_step :: "js_call \<Rightarrow> js_state \<Rightarrow> string + js_state" where
  "js_step (JsAlloc label sz) s = map_sum (\<lambda>e. e) snd (js_alloc label sz s)"
| "js_step (JsFree i) s = js_free i s"
| "js_step (JsLog args) s = Inr (s\<lparr>js_stdout := js_stdout s @ [join '' '' args]\<rparr>)"
| "js_step (JsErr args) s = Inr (s\<lparr>js_stderr := js_stderr s @ [join '' '' args]\<rparr>)"

text \<open>
  The body of the \<open>try\<close> block, for user code that is a sequence of calls and
  handles no error itself: the calls run in order, and the first one that throws
  ends it. The result is the state the \<open>catch\<close> block or the code after the user code
  sees, and the message of the error if one was thrown. (User code with its own
  \<open>try\<close> statements is \<open>js_exec_block\<close> below.)
\<close>

fun js_exec :: "js_call list \<Rightarrow> js_state \<Rightarrow> js_state \<times> string option" where
  "js_exec [] s = (s, None)"
| "js_exec (c # cs) s =
     (case js_step c s of Inl e \<Rightarrow> (s, Some e) | Inr s' \<Rightarrow> js_exec cs s')"

text \<open>The message the instrumented script posts.\<close>

datatype 'sz posted =
    PostResult "'sz MemoryEvent list" string string
  | PostError string string string

text \<open>The code after the user code: the \<open>end\<close> event for leaked allocations.\<close>

definition js_mark_leaks :: "js_state \<Rightarrow> js_state" where
  "js_mark_leaks s =
     (if length (js_allocs s) > 0
      then s\<lparr>js_time := js_time s + 1,
             js_events := js_events s @
               [\<lparr>time = js_time s + 1, action = ''end'', ev_id = None,
                 ev_size = None, ev_label = None\<rparr>]\<rparr>
      else s)"

definition js_run :: "js_call list \<Rightarrow> number posted" where
  "js_run user =
     (case js_exec user js_init of
        (s, None) \<Rightarrow>
          let s' = js_mark_leaks s
          in PostResult (js_events s') (join ''\<newline>'' (js_stdout s')) (join ''\<newline>'' (js_stderr s'))
      | (s, Some err) \<Rightarrow>
          PostError err (join ''\<newline>'' (js_stdout s)) (join ''\<newline>'' (js_stderr s)))"


subsection \<open>Python surface\<close>

text \<open>
  The globals of the instrumented module: \<open>_events\<close>, \<open>_allocs\<close> (a dict, kept as an
  association list in insertion order), \<open>_time[0]\<close>, and the text of the two
  \<open>StringIO\<close> captures.
\<close>

record py_state =
  py_events :: "int MemoryEvent list"
  py_allocs :: "(string \<times> (string \<times> int)) list"
  py_time :: nat
  py_stdout_capture :: string
  py_stderr_capture :: string

definition py_init :: py_state where
  "py_init = \<lparr>py_events = [], py_allocs = [], py_time = 0,
               py_stdout_capture = [], py_stderr_capture = []\<rparr>"

text \<open>
  \<open>alloc(label, size)\<close>: a raised exception is \<open>Inl\<close> of its message. \<open>int(size)\<close> is
  evaluated after the counter was incremented; when it raises, the exception leaves the
  call, and the run with it (see \<open>py_exec\<close>).
\<close>

definition py_alloc :: "pyval \<Rightarrow> pyval \<Rightarrow> py_state \<Rightarrow> string + (string \<times> py_state)" where
  "py_alloc label sz s =
     (if \<not> is_str label then Inl ''alloc: label must be a string''
      else if \<not> is_int_or_float sz \<or> py_le_zero sz
        then Inl ''alloc: size must be a positive number''
      else if length (py_events s) \<ge> MAX_EVENTS then Inl limit_message
      else
        let t = py_time s + 1;
            i = str_of_py label @ ''_'' @ string_of_nat t
        in (case py_int sz of
              Inl e \<Rightarrow> Inl e
            | Inr n \<Rightarrow>
                Inr (i, s\<lparr>py_time := t,
                  py_allocs := AList.update i (str_of_py label, n) (py_allocs s),
                  py_events := py_events s @
                    [\<lparr>time = t, action = ''alloc'', ev_id = Some i,
                      ev_size = Some n, ev_label = Some (str_of_py label)\<rparr>]\<rparr>)))"

definition py_free :: "pyval \<Rightarrow> py_state \<Rightarrow> string + py_state" where
  "py_free i s =
     (if \<not> is_str i then Inl ''free: id must be a string returned by alloc()''
      else if length (py_events s) \<ge> MAX_EVENTS then Inl limit_message
      else
        let t = py_time s + 1 in
        if map_of (py_allocs s) (str_of_py i) = None
        then Inr (s\<lparr>py_time := t,
               py_events := py_events s @
                 [\<lparr>time = t, action = ''double_free'', ev_id = Some (str_of_py i),
                   ev_size = None, ev_label = None\<rparr>]\<rparr>)
        else Inr (s\<lparr>py_time := t,
               py_allocs := AList.delete (str_of_py i) (py_allocs s),
               py_events := py_events s @
                 [\<lparr>time = t, action = ''free'', ev_id = Some (str_of_py i),
                   ev_size = None, ev_label = None\<rparr>]\<rparr>))"

text \<open>
  User code as the calls it makes: the tracking primitives, \<open>print(s)\<close> and
  \<open>print(s, file=sys.stderr)\<close> with one string argument.
\<close>

datatype py_call =
    PyAlloc pyval pyval
  | PyFree pyval
  | PyPrint string
  | PyPrintErr string

fun py_step :: "py_call \<Rightarrow> py_state \<Rightarrow> string + py_state" where
  "py_step (PyAlloc label sz) s = map_sum (\<lambda>e. e) snd (py_alloc label sz s)"
| "py_step (PyFree i) s = py_free i s"
| "py_step (PyPrint x) s =
     Inr (s\<lparr>py_stdout_capture := py_stdout_capture s @ x @ ''\<newline>''\<rparr>)"
| "py_step (PyPrintErr x) s =
     Inr (s\<lparr>py_stderr_capture := py_stderr_capture s @ x @ ''\<newline>''\<rparr>)"

text \<open>
  \<open>_run_user_code()\<close>, for user code that is a sequence of calls and handles no
  exception itself: the first call that raises ends it. The state returned with
  the message is the one before the failing call; the module has no handler, so
  nothing reads the state after an exception. (User code with its own \<open>try\<close>
  statements, and the state a raising call leaves, are \<open>py_exec_block\<close> below.)
\<close>

fun py_exec :: "py_call list \<Rightarrow> py_state \<Rightarrow> py_state \<times> string option" where
  "py_exec [] s = (s, None)"
| "py_exec (c # cs) s =
     (case py_step c s of Inl e \<Rightarrow> (s, Some e) | Inr s' \<Rightarrow> py_exec cs s')"

definition py_mark_leaks :: "py_state \<Rightarrow> py_state" where
  "py_mark_leaks s =
     (if py_allocs s \<noteq> []
      then s\<lparr>py_time := py_time s + 1,
             py_events := py_events s @
               [\<lparr>time = py_time s + 1, action = ''end'', ev_id = None,
                 ev_size = None, ev_label = None\<rparr>]\<rparr>
      else s)"

text \<open>
  The instrumented module as a whole: it either raises (\<open>Inl\<close>, the exception leaves
  \<open>pyodide.runPython\<close>) or evaluates to the dumped record of events and captured
  output (\<open>Inr\<close>).
\<close>

definition py_run :: "py_call list \<Rightarrow> string + (int MemoryEvent list \<times> string \<times> string)" where
  "py_run user =
     (case py_exec user py_init of
        (s, Some err) \<Rightarrow> Inl err
      | (s, None) \<Rightarrow>
          let s' = py_mark_leaks s
          in Inr (py_events s', py_stdout_capture s', py_stderr_capture s'))"


section \<open>The two instrumentation transformers\<close>

text \<open>
  The template literal of \<open>instrumentJs\<close>, cut at its one interpolation: the text
  before the user code and the text after it, line by line.
\<close>

definition js_prelude :: string where
  \<open>js_prelude = concat
    [''\<newline>'',
     ''\'use strict\';\<newline>'',
     ''const __events = [];\<newline>'',
     ''const __allocs = new Map();\<newline>'',
     ''const __stdout = [];\<newline>'',
     ''const __stderr = [];\<newline>'',
     ''let __time = 0;\<newline>'',
     ''const MAX_EVENTS = 10000;\<newline>'',
     ''\<newline>'',
     ''function alloc(label, size) {\<newline>'',
     ''  if (typeof label !== \'string\') throw new Error(\'alloc: label must be a string\');\<newline>'',
     ''  if (typeof size !== \'number\' || size <= 0) throw new Error(\'alloc: size must be a positive number\');\<newline>'',
     ''  if (__events.length >= MAX_EVENTS) throw new Error(\'Event limit reached (10,000). Reduce allocations.\');\<newline>'',
     ''  __time++;\<newline>'',
     ''  const id = label + \'_\' + __time;\<newline>'',
     ''  __allocs.set(id, { label, size });\<newline>'',
     ''  __events.push({ time: __time, action: \'alloc\', id, size, label });\<newline>'',
     ''  return id;\<newline>'',
     ''}\<newline>'',
     ''\<newline>'',
     ''function free(id) {\<newline>'',
     ''  if (typeof id !== \'string\') throw new Error(\'free: id must be a string returned by alloc()\');\<newline>'',
     ''  if (__events.length >= MAX_EVENTS) throw new Error(\'Event limit reached (10,000). Reduce allocations.\');\<newline>'',
     ''  __time++;\<newline>'',
     ''  if (!__allocs.has(id)) {\<newline>'',
     ''    __events.push({ time: __time, action: \'double_free\', id });\<newline>'',
     ''    return;\<newline>'',
     ''  }\<newline>'',
     ''  __allocs.delete(id);\<newline>'',
     ''  __events.push({ time: __time, action: \'free\', id });\<newline>'',
     ''}\<newline>'',
     ''\<newline>'',
     ''function print(...args) {\<newline>'',
     ''  __stdout.push(args.map(String).join(\' \'));\<newline>'',
     ''}\<newline>'',
     ''\<newline>'',
     ''function log(...args) {\<newline>'',
     ''  __stdout.push(args.map(String).join(\' \'));\<newline>'',
     ''}\<newline>'',
     ''\<newline>'',
     ''const console = {\<newline>'',
     ''  log: (...args) => __stdout.push(args.map(String).join(\' \')),\<newline>'',
     ''  error: (...args) => __stderr.push(args.map(String).join(\' \')),\<newline>'',
     ''  warn: (...args) => __stderr.push(args.map(String).join(\' \')),\<newline>'',
     ''};\<newline>'',
     ''\<newline>'',
     ''try {\<newline>'',
     ''  // --- User code ---\<newline>'',
     ''  '']\<close>

definition js_postlude :: string where
  \<open>js_postlude = concat
    [''\<newline>'',
     ''  // --- End user code ---\<newline>'',
     ''\<newline>'',
     ''  // Mark remaining allocations as leaked\<newline>'',
     ''  if (__allocs.size > 0) {\<newline>'',
     ''    __time++;\<newline>'',
     ''    __events.push({ time: __time, action: \'end\' });\<newline>'',
     ''  }\<newline>'',
     ''\<newline>'',
     ''  self.postMessage({\<newline>'',
     ''    type: \'result\',\<newline>'',
     ''    events: __events,\<newline>'',
     ''    stdout: __stdout.join('' @ [CHR 0x27, CHR 0x5C] @ ''n\'),\<newline>'',
     ''    stderr: __stderr.join('' @ [CHR 0x27, CHR 0x5C] @ ''n\'),\<newline>'',
     ''  });\<newline>'',
     ''} catch (err) {\<newline>'',
     ''  self.postMessage({\<newline>'',
     ''    type: \'error\',\<newline>'',
     ''    error: err instanceof Error ? err.message : String(err),\<newline>'',
     ''    stdout: __stdout.join('' @ [CHR 0x27, CHR 0x5C] @ ''n\'),\<newline>'',
     ''    stderr: __stderr.join('' @ [CHR 0x27, CHR 0x5C] @ ''n\'),\<newline>'',
     ''  });\<newline>'',
     ''}\<newline>'']\<close>

definition instrumentJs :: "string \<Rightarrow> string" where
  "instrumentJs userCode = js_prelude @ userCode @ js_postlude"

text \<open>\<open>s.split(c)\<close> for a one-character separator: the empty string gives one empty piece.\<close>

fun split_on :: "char \<Rightarrow> string \<Rightarrow> string list" where
  "split_on c [] = [[]]"
| "split_on c (x # xs) =
     (if x = c then [] # split_on c xs
      else (case split_on c xs of [] \<Rightarrow> [[x]] | l # ls \<Rightarrow> (x # l) # ls))"

text \<open>The template literal of \<open>instrumentPython\<close>, cut at its one interpolation.\<close>

definition py_prelude :: string where
  \<open>py_prelude = concat
    [''\<newline>'',
     ''import json as _json\<newline>'',
     ''import io as _io\<newline>'',
     ''import sys as _sys\<newline>'',
     ''\<newline>'',
     ''_events = []\<newline>'',
     ''_allocs = {}\<newline>'',
     ''_time = [0]\<newline>'',
     ''_MAX_EVENTS = 10000\<newline>'',
     ''_stdout_capture = _io.StringIO()\<newline>'',
     ''_stderr_capture = _io.StringIO()\<newline>'',
     ''_sys.stdout = _stdout_capture\<newline>'',
     ''_sys.stderr = _stderr_capture\<newline>'',
     ''\<newline>'',
     ''def alloc(label: str, size: int) -> str:\<newline>'',
     ''    if not isinstance(label, str):\<newline>'',
     ''        raise TypeError("alloc: label must be a string")\<newline>'',
     ''    if not isinstance(size, (int, float)) or size <= 0:\<newline>'',
     ''        raise ValueError("alloc: size must be a positive number")\<newline>'',
     ''    if len(_events) >= _MAX_EVENTS:\<newline>'',
     ''        raise RuntimeError("Event limit reached (10,000). Reduce allocations.")\<newline>'',
     ''    _time[0] += 1\<newline>'',
     ''    id = f"{label}_{_time[0]}"\<newline>'',
     ''    _allocs[id] = {"label": label, "size": int(size)}\<newline>'',
     ''    _events.append({"time": _time[0], "action": "alloc", "id": id, "size": int(size), "label": label})\<newline>'',
     ''    return id\<newline>'',
     ''\<newline>'',
     ''def free(id: str) -> None:\<newline>'',
     ''    if not isinstance(id, str):\<newline>'',
     ''        raise TypeError("free: id must be a string returned by alloc()")\<newline>'',
     ''    if len(_events) >= _MAX_EVENTS:\<newline>'',
     ''        raise RuntimeError("Event limit reached (10,000). Reduce allocations.")\<newline>'',
     ''    _time[0] += 1\<newline>'',
     ''    if id not in _allocs:\<newline>'',
     ''        _events.append({"time": _time[0], "action": "double_free", "id": id})\<newline>'',
     ''        return\<newline>'',
     ''    del _allocs[id]\<newline>'',
     ''    _events.append({"time": _time[0], "action": "free", "id": id})\<newline>'',
     ''\<newline>'',
     ''def _run_user_code():\<newline>'']\<close>

definition py_postlude :: string where
  \<open>py_postlude = concat
    [''\<newline>'',
     ''\<newline>'',
     ''_run_user_code()\<newline>'',
     ''\<newline>'',
     ''if _allocs:\<newline>'',
     ''    _time[0] += 1\<newline>'',
     ''    _events.append({"time": _time[0], "action": "end"})\<newline>'',
     ''\<newline>'',
     ''_json.dumps({"events": _events, "stdout": _stdout_capture.getvalue(), "stderr": _stderr_capture.getvalue()})\<newline>'']\<close>

definition indent_lines :: "string \<Rightarrow> string" where
  "indent_lines userCode =
     join ''\<newline>'' (map (\<lambda>line. ''    '' @ line) (split_on CHR ''\<newline>'' userCode))"

definition instrumentPython :: "string \<Rightarrow> string" where
  "instrumentPython userCode =
     (let indented = indent_lines userCode
      in py_prelude @ indented @ py_postlude)"


section \<open>The result validator\<close>

text \<open>
  The object literal pushed for a kept entry: \<open>time\<close> and \<open>action\<close>, then each
  optional key only under its \<open>typeof\<close> test, in the order of the three spreads.
\<close>

definition build_event :: "jsval \<Rightarrow> jsval" where
  "build_event e = JObj
     ([(''time'', get_prop e ''time''), (''action'', get_prop e ''action'')]
      @ (if typeof (get_prop e ''id'') = ''string'' then [(''id'', get_prop e ''id'')] else [])
      @ (if typeof (get_prop e ''size'') = ''number'' then [(''size'', get_prop e ''size'')] else [])
      @ (if typeof (get_prop e ''label'') = ''string'' then [(''label'', get_prop e ''label'')] else []))"

text \<open>
  The \<open>for (const ev of raw)\<close> loop with its two \<open>continue\<close> guards; \<open>events\<close> is the
  array built so far. The loop is the same text in \<open>validateEvents\<close> of the run
  controller and in \<open>validateResult\<close> of the two runtimes.
\<close>

fun validate_loop :: "jsval list \<Rightarrow> jsval list \<Rightarrow> jsval list" where
  "validate_loop [] events = events"
| "validate_loop (ev # rest) events =
     (if \<not> truthy ev \<or> typeof ev \<noteq> ''object'' then validate_loop rest events
      else if typeof (get_prop ev ''time'') \<noteq> ''number''
              \<or> typeof (get_prop ev ''action'') \<noteq> ''string''
        then validate_loop rest events
      else validate_loop rest (events @ [build_event ev]))"

fun elems :: "jsval \<Rightarrow> jsval list" where
  "elems (JArr xs) = xs"
| "elems _ = []"

definition validateEvents :: "jsval \<Rightarrow> jsval list" where
  "validateEvents raw = (if \<not> isArray raw then [] else validate_loop (elems raw) [])"

text \<open>
  The entry the contract keeps, in the words of the specification: a non-null
  structured object with a numeric \<open>time\<close> and a textual \<open>action\<close>.
\<close>

fun is_valid_entry :: "jsval \<Rightarrow> bool" where
  "is_valid_entry (JObj ps) =
     ((case map_of ps ''time'' of Some (JNum n) \<Rightarrow> True | _ \<Rightarrow> False) \<and>
      (case map_of ps ''action'' of Some (JStr a) \<Rightarrow> True | _ \<Rightarrow> False))"
| "is_valid_entry _ = False"

fun props :: "jsval \<Rightarrow> (string \<times> jsval) list" where
  "props (JObj ps) = ps"
| "props _ = []"

section \<open>The runtimes inside the worker\<close>

record run_result =
  r_events :: "jsval list"
  r_stdout :: string
  r_stderr :: string

text \<open>\<open>validateResult\<close> of the JavaScript runtime; a thrown \<open>Error\<close> is \<open>Inl\<close>.\<close>

definition validateResult_js :: "jsval \<Rightarrow> string + run_result" where
  "validateResult_js raw =
     (if \<not> truthy raw \<or> typeof raw \<noteq> ''object''
        then Inl ''Code did not produce a result. Make sure your code uses alloc() and free().''
      else if \<not> isArray (get_prop raw ''events'')
        then Inl ''Invalid result: events is not an array''
      else Inr \<lparr>r_events = validate_loop (elems (get_prop raw ''events'')) [],
                r_stdout = (if typeof (get_prop raw ''stdout'') = ''string''
                            then str_of (get_prop raw ''stdout'') else []),
                r_stderr = (if typeof (get_prop raw ''stderr'') = ''string''
                            then str_of (get_prop raw ''stderr'') else [])\<rparr>)"

text \<open>\<open>validateResult\<close> of the Python runtime.\<close>

definition validateResult_py :: "jsval \<Rightarrow> string + run_result" where
  "validateResult_py raw =
     (if \<not> truthy raw \<or> typeof raw \<noteq> ''object''
        then Inl ''Python code did not produce a valid result.''
      else if \<not> isArray (get_prop raw ''events'')
        then Inl ''Invalid result: events is not an array''
      else Inr \<lparr>r_events = validate_loop (elems (get_prop raw ''events'')) [],
                r_stdout = (if typeof (get_prop raw ''stdout'') = ''string''
                            then str_of (get_prop raw ''stdout'') else []),
                r_stderr = (if typeof (get_prop raw ''stderr'') = ''string''
                            then str_of (get_prop raw ''stderr'') else [])\<rparr>)"

text \<open>
  A recorded event as the receiving side reads it (after the structured clone of
  \<open>postMessage\<close>, or after \<open>json.dumps\<close> and \<open>JSON.parse\<close>): the keys the literal
  wrote, in its order.
\<close>

definition event_object :: "('sz \<Rightarrow> number) \<Rightarrow> 'sz MemoryEvent \<Rightarrow> jsval" where
  "event_object num ev = JObj
     ([(''time'', JNum (Finite (of_nat (time ev)))), (''action'', JStr (action ev))]
      @ (case ev_id ev of Some i \<Rightarrow> [(''id'', JStr i)] | None \<Rightarrow> [])
      @ (case ev_size ev of Some n \<Rightarrow> [(''size'', JNum (num n))] | None \<Rightarrow> [])
      @ (case ev_label ev of Some l \<Rightarrow> [(''label'', JStr l)] | None \<Rightarrow> []))"

definition posted_object :: "number posted \<Rightarrow> jsval" where
  "posted_object m =
     (case m of
        PostResult evs out err \<Rightarrow>
          JObj [(''type'', JStr ''result''),
                (''events'', JArr (map (event_object (\<lambda>n. n)) evs)),
                (''stdout'', JStr out), (''stderr'', JStr err)]
      | PostError e out err \<Rightarrow>
          JObj [(''type'', JStr ''error''), (''error'', JStr e),
                (''stdout'', JStr out), (''stderr'', JStr err)])"

text \<open>
  How a call of a runtime ends for the code that awaits it: with a value, with a
  thrown or rejected error, or never (an exception inside the message handler leaves
  the promise of \<open>runJs\<close> unsettled).
\<close>

datatype 'a outcome = Returned 'a | Threw string | Unsettled

text \<open>
  \<open>runJs\<close>: the inner worker runs the instrumented script, and \<open>worker.onmessage\<close>
  settles the promise on the message the script posts. An \<open>error\<close> message rejects
  with \<open>new Error(msg.error)\<close>: the \<open>stdout\<close> and \<open>stderr\<close> of the message are not read.
  The script always posts a string as \<open>error\<close>; the text that \<open>new Error\<close> would make
  of another value is not modelled (\<open>str_of\<close> reads it as empty).
\<close>

definition runJs_onmessage :: "jsval \<Rightarrow> run_result outcome" where
  "runJs_onmessage msg =
     (if get_prop msg ''type'' = JStr ''error'' then Threw (str_of (get_prop msg ''error''))
      else (case validateResult_js msg of Inr r \<Rightarrow> Returned r | Inl e \<Rightarrow> Unsettled))"

definition runJs :: "js_call list \<Rightarrow> run_result outcome" where
  "runJs userCode = runJs_onmessage (posted_object (js_run userCode))"

text \<open>
  \<open>runPython\<close>: the status callbacks it makes, and how it ends. \<open>importScriptsFn\<close>
  tells whether the function was passed (the dash of that message is written in ASCII
  here); loading Pyodide is taken to succeed. The text Pyodide puts into the message
  of its \<open>PythonError\<close> is not modelled: the message of the Python exception stands
  for it. Sizes are converted to numbers exactly, also above \<open>2^53\<close> where
  \<open>JSON.parse\<close> rounds. An
  exception of the instrumented module leaves \<open>pyodide.runPython\<close> and \<open>runPython\<close>
  with it; the captured output stays in the module's \<open>StringIO\<close> objects.
\<close>

definition runPython :: "py_call list \<Rightarrow> bool \<Rightarrow> string list \<times> run_result outcome" where
  "runPython userCode importScriptsFn =
     ([''loading-pyodide''],
      (if \<not> importScriptsFn
         then Threw ''importScripts not available - cannot load Pyodide.''
       else (case py_run userCode of
               Inl e \<Rightarrow> Threw e
             | Inr (evs, out, err) \<Rightarrow>
                 (case validateResult_py
                         (JObj [(''events'', JArr (map (event_object (\<lambda>n. Finite (of_int n))) evs)),
                                (''stdout'', JStr out), (''stderr'', JStr err)]) of
                    Inl e \<Rightarrow> Threw e
                  | Inr r \<Rightarrow> Returned r))))"


section \<open>The sandbox worker\<close>

datatype SandboxStatus = Idle | Running | LoadingPyodide | Success | Error | Timeout

text \<open>
  The messages of the worker. The events of a result are whatever the worker sent
  (the controller validates them); a status message carries the status it names.
\<close>

datatype WorkerOutMessage =
    ResultMsg jsval string string
  | ErrorMsg string string string
  | StatusMsg SandboxStatus

text \<open>
  The \<open>try\<close>/\<open>catch\<close> of \<open>self.onmessage\<close> around an awaited runtime call, on how
  that call ends: a value is posted as \<open>result\<close>, an error as \<open>error\<close> with the
  literal empty strings the handler writes for \<open>stdout\<close> and \<open>stderr\<close>.
\<close>

fun post_outcome :: "run_result outcome \<Rightarrow> WorkerOutMessage list" where
  "post_outcome (Returned r) = [ResultMsg (JArr (r_events r)) (r_stdout r) (r_stderr r)]"
| "post_outcome (Threw message) = [ErrorMsg message [] []]"
| "post_outcome Unsettled = []"

text \<open>
  \<open>self.onmessage\<close> for a \<open>run\<close> message whose language is \<open>Python\<close>: the messages
  the worker posts, in order. \<open>importScripts\<close> says whether \<open>_importScripts\<close> was
  captured. (The branch for \<open>JavaScript\<close> reads the promise of \<open>runJs\<close> without
  awaiting it and is not modelled.)
\<close>

definition sandboxWorker_python :: "py_call list \<Rightarrow> bool \<Rightarrow> WorkerOutMessage list" where
  "sandboxWorker_python code importScripts =
     (case runPython code importScripts of
        (statuses, res) \<Rightarrow> map (\<lambda>st. StatusMsg LoadingPyodide) statuses @ post_outcome res)"

text \<open>The last branch of the handler, for any other language.\<close>

definition sandboxWorker_unsupported :: "string \<Rightarrow> WorkerOutMessage list" where
  "sandboxWorker_unsupported language = [ErrorMsg (''Unsupported language: '' @ language) [] []]"


section \<open>The run controller\<close>

record SandboxState =
  status :: SandboxStatus
  events :: "jsval list"
  stdout :: string
  stderr :: string
  error :: "string option"

definition INITIAL_STATE :: SandboxState where
  "INITIAL_STATE = \<lparr>status = Idle, events = [], stdout = [], stderr = [], error = None\<rparr>"

datatype SandboxLanguage = JavaScript | Python

text \<open>
  The hook: its React state, the two refs, and the part of the environment the refs
  point into. \<open>live_workers\<close> are the workers created and not yet terminated,
  \<open>pending_timers\<close> the timeouts set and neither cleared nor fired; a handle is a
  number, never a falsy one. \<open>outbox\<close> lists the run messages posted to workers.
\<close>

record controller =
  state :: SandboxState
  workerRef :: "nat option"
  timeoutRef :: "nat option"
  live_workers :: "nat set"
  pending_timers :: "nat set"
  next_worker :: nat
  next_timer :: nat
  outbox :: "(nat \<times> SandboxLanguage \<times> string) list"

definition controller_init :: controller where
  "controller_init =
     \<lparr>state = INITIAL_STATE, workerRef = None, timeoutRef = None, live_workers = {},
      pending_timers = {}, next_worker = 0, next_timer = 0, outbox = []\<rparr>"

definition clear_timeout_ref :: "controller \<Rightarrow> controller" where
  "clear_timeout_ref c =
     (case timeoutRef c of
        Some t \<Rightarrow> c\<lparr>pending_timers := pending_timers c - {t}, timeoutRef := None\<rparr>
      | None \<Rightarrow> c)"

definition terminate_worker_ref :: "controller \<Rightarrow> controller" where
  "terminate_worker_ref c =
     (case workerRef c of
        Some w \<Rightarrow> c\<lparr>live_workers := live_workers c - {w}, workerRef := None\<rparr>
      | None \<Rightarrow> c)"

definition cleanup :: "controller \<Rightarrow> controller" where
  "cleanup c = terminate_worker_ref (clear_timeout_ref c)"

text \<open>Whitespace that \<open>trim\<close> removes, among the characters a \<open>char\<close> can hold.\<close>

definition is_space :: "char \<Rightarrow> bool" where
  "is_space ch = (ch \<in> {CHR 0x09, CHR 0x0A, CHR 0x0B, CHR 0x0C, CHR 0x0D, CHR 0x20, CHR 0xA0})"

definition trim :: "string \<Rightarrow> string" where
  "trim x = rev (dropWhile is_space (rev (dropWhile is_space x)))"

definition run :: "SandboxLanguage \<Rightarrow> string \<Rightarrow> controller \<Rightarrow> controller" where
  "run language code c =
     (let c1 = cleanup c in
      if trim code = []
      then c1\<lparr>state := INITIAL_STATE\<lparr>status := Error, error := Some ''No code to run.''\<rparr>\<rparr>
      else
        let w = next_worker c1; t = next_timer c1
        in c1\<lparr>state := INITIAL_STATE\<lparr>status := Running\<rparr>,
              workerRef := Some w,
              live_workers := insert w (live_workers c1),
              next_worker := w + 1,
              timeoutRef := Some t,
              pending_timers := insert t (pending_timers c1),
              next_timer := t + 1,
              outbox := outbox c1 @ [(w, language, code)]\<rparr>)"

text \<open>The callback given to \<open>setTimeout\<close>, when timer \<open>t\<close> fires.\<close>

definition on_timeout :: "nat \<Rightarrow> controller \<Rightarrow> controller" where
  "on_timeout t c =
     (let c1 = cleanup (c\<lparr>pending_timers := pending_timers c - {t}\<rparr>)
      in c1\<lparr>state := (state c1)\<lparr>status := Timeout,
              error := Some ''Execution timed out after 10 seconds. Check for infinite loops.''\<rparr>\<rparr>)"

text \<open>\<open>worker.onmessage\<close> of the worker \<open>w\<close> that \<open>run\<close> created.\<close>

definition on_message :: "nat \<Rightarrow> WorkerOutMessage \<Rightarrow> controller \<Rightarrow> controller" where
  "on_message w msg c =
     (case msg of
        StatusMsg st \<Rightarrow> c\<lparr>state := (state c)\<lparr>status := st\<rparr>\<rparr>
      | ResultMsg raw out err \<Rightarrow>
          (let c1 = clear_timeout_ref c;
               evs = validateEvents raw
           in c1\<lparr>state := \<lparr>status = (if length evs > 0 then Success else Success),
                      events = evs, stdout = out, stderr = err,
                      error = (if length evs = 0
                        then Some ''Code ran but produced no memory events. Use alloc(label, size) to allocate.''
                        else None)\<rparr>,
                  live_workers := live_workers c1 - {w},
                  workerRef := None\<rparr>)
      | ErrorMsg e out err \<Rightarrow>
          (let c1 = clear_timeout_ref c
           in c1\<lparr>state := \<lparr>status = Error, events = [], stdout = out, stderr = err,
                      error = Some e\<rparr>,
                  live_workers := live_workers c1 - {w},
                  workerRef := None\<rparr>))"

text \<open>\<open>worker.onerror\<close>, with the message of the error event.\<close>

definition on_error :: "string \<Rightarrow> controller \<Rightarrow> controller" where
  "on_error message c =
     (cleanup c)\<lparr>state := \<lparr>status = Error, events = [], stdout = [], stderr = [],
        error = Some (if message \<noteq> [] then message else ''Worker error'')\<rparr>\<rparr>"

definition stop :: "controller \<Rightarrow> controller" where
  "stop c =
     (let c1 = cleanup c
      in c1\<lparr>state := (state c1)\<lparr>status :=
           (if status (state c1) = Running \<or> status (state c1) = LoadingPyodide
            then Idle else status (state c1))\<rparr>\<rparr>)"

text \<open>
  The states the hook can be in: calls of \<open>run\<close> and \<open>stop\<close> at any moment, a pending
  timer firing, and a message or an error event from a worker that was not terminated.
\<close>

inductive reachable :: "controller \<Rightarrow> bool" where
  r_init: "reachable controller_init"
| r_run: "reachable c \<Longrightarrow> reachable (run language code c)"
| r_stop: "reachable c \<Longrightarrow> reachable (stop c)"
| r_timeout: "reachable c \<Longrightarrow> t \<in> pending_timers c \<Longrightarrow> reachable (on_timeout t c)"
| r_message: "reachable c \<Longrightarrow> w \<in> live_workers c \<Longrightarrow> reachable (on_message w msg c)"
| r_error: "reachable c \<Longrightarrow> w \<in> live_workers c \<Longrightarrow> reachable (on_error message c)"


section \<open>User code that handles errors\<close>











section \<open>Notions used in the statements\<close>

fun is_js_tracking :: "js_call \<Rightarrow> bool" where
  "is_js_tracking (JsAlloc label sz) = True"
| "is_js_tracking (JsFree i) = True"
| "is_js_tracking _ = False"

fun is_py_tracking :: "py_call \<Rightarrow> bool" where
  "is_py_tracking (PyAlloc label sz) = True"
| "is_py_tracking (PyFree i) = True"
| "is_py_tracking _ = False"

text \<open>The ids that \<open>alloc\<close> synthesized, in the order of the events.\<close>

definition alloc_ids :: "'sz MemoryEvent list \<Rightarrow> string option list" where
  "alloc_ids evs = map ev_id (filter (\<lambda>e. action e = ''alloc'') evs)"

definition end_events :: "'sz MemoryEvent list \<Rightarrow> 'sz MemoryEvent list" where
  "end_events evs = filter (\<lambda>e. action e = ''end'') evs"

text \<open>
  What the tracking primitives keep true of the event list: the times count up from 1,
  no event is an \<open>end\<close>, and the id of an \<open>alloc\<close> event ends in its time.
\<close>

definition well_timed :: "'sz MemoryEvent list \<Rightarrow> bool" where
  "well_timed evs =
     (map time evs = [1..<Suc (length evs)] \<and>
      (\<forall>e \<in> set evs. action e \<noteq> ''end'' \<and>
         (action e = ''alloc'' \<longrightarrow> (\<exists>lab. ev_id e = Some (lab @ ''_'' @ string_of_nat (time e))))))"

text \<open>
  What holds of the hook in every state it reaches: only the worker and the timer the
  refs point to are alive, and while a worker is alive, or the status is one of
  \<open>idle\<close>, \<open>running\<close>, \<open>loading-pyodide\<close>, the state holds no events and no output.
\<close>

definition controller_inv :: "controller \<Rightarrow> bool" where
  "controller_inv c =
     (live_workers c \<subseteq> set_option (workerRef c) \<and>
      pending_timers c \<subseteq> set_option (timeoutRef c) \<and>
      (live_workers c \<noteq> {} \<or> status (state c) \<in> {Idle, Running, LoadingPyodide} \<longrightarrow>
         events (state c) = [] \<and> stdout (state c) = [] \<and> stderr (state c) = []))"

section \<open>Properties\<close>


subsection \<open>Decimal rendering and synthesized ids\<close>

lemma digit_char_inj: "a < 10 \<Longrightarrow> b < 10 \<Longrightarrow> digit_char a = digit_char b \<Longrightarrow> a = b"
  unfolding digit_char_def
  by (subst (asm) nth_eq_iff_index_eq) simp_all

lemma digit_char_not_underscore: "d < 10 \<Longrightarrow> digit_char d \<noteq> CHR ''_''"
proof -
  assume "d < 10"
  then have "digit_char d \<in> set ''0123456789''"
    unfolding digit_char_def by (intro nth_mem) simp
  then show ?thesis by auto
qed

lemma string_of_nat_nonempty: "string_of_nat n \<noteq> []"
  by (subst string_of_nat.simps) simp

lemma string_of_nat_no_underscore: "CHR ''_'' \<notin> set (string_of_nat n)"
proof (induction n rule: string_of_nat.induct)
  case (1 n)
  show ?case
  proof (cases "n < 10")
    case True
    then show ?thesis
      using digit_char_not_underscore [of n] by (subst string_of_nat.simps) auto
  next
    case False
    have "n mod 10 < 10" by simp
    then have "digit_char (n mod 10) \<noteq> CHR ''_''" by (rule digit_char_not_underscore)
    with False 1 show ?thesis by (subst string_of_nat.simps) auto
  qed
qed

lemma string_of_nat_inj: "string_of_nat a = string_of_nat b \<Longrightarrow> a = b"
proof (induction a arbitrary: b rule: string_of_nat.induct)
  case (1 a)
  show ?case
  proof (cases "a < 10")
    case True
    note a = this
    show ?thesis
    proof (cases "b < 10")
      case True
      with a "1.prems" show ?thesis
        by (simp add: string_of_nat.simps [of a] string_of_nat.simps [of b] digit_char_inj)
    next
      case False
      with a "1.prems" string_of_nat_nonempty [of "b div 10"] show ?thesis
        by (simp add: string_of_nat.simps [of a] string_of_nat.simps [of b])
    qed
  next
    case False
    note a = this
    show ?thesis
    proof (cases "b < 10")
      case True
      with a "1.prems" string_of_nat_nonempty [of "a div 10"] show ?thesis
        by (simp add: string_of_nat.simps [of a] string_of_nat.simps [of b])
    next
      case False
      with a "1.prems" have e: "string_of_nat (a div 10) = string_of_nat (b div 10)"
        and d: "digit_char (a mod 10) = digit_char (b mod 10)"
        by (simp_all add: string_of_nat.simps [of a] string_of_nat.simps [of b])
      from "1.IH" [OF a e] have "a div 10 = b div 10" .
      moreover from d have "a mod 10 = b mod 10" by (intro digit_char_inj) simp_all
      ultimately show ?thesis by (metis div_mult_mod_eq)
    qed
  qed
qed

lemma last_separator: 
  "xs @ c # d1 = ys @ c # d2 \<Longrightarrow> c \<notin> set d1 \<Longrightarrow> c \<notin> set d2 \<Longrightarrow> d1 = d2"
proof -
  assume e: "xs @ c # d1 = ys @ c # d2" and n1: "c \<notin> set d1" and n2: "c \<notin> set d2"
  have t: "takeWhile (\<lambda>x. x \<noteq> c) (rev (zs @ c # d)) = rev d" if "c \<notin> set d" for zs d
    using that by (auto simp add: takeWhile_tail)
  from e have "takeWhile (\<lambda>x. x \<noteq> c) (rev (xs @ c # d1)) = takeWhile (\<lambda>x. x \<noteq> c) (rev (ys @ c # d2))"
    by simp
  then have "rev d1 = rev d2" by (simp only: t [OF n1] t [OF n2])
  then show ?thesis by simp
qed

lemma synth_id_inj:
  "l1 @ ''_'' @ string_of_nat a = l2 @ ''_'' @ string_of_nat b \<Longrightarrow> a = b"
proof -
  assume "l1 @ ''_'' @ string_of_nat a = l2 @ ''_'' @ string_of_nat b"
  then have "l1 @ CHR ''_'' # string_of_nat a = l2 @ CHR ''_'' # string_of_nat b" by simp
  then have "string_of_nat a = string_of_nat b"
    by (rule last_separator) (rule string_of_nat_no_underscore)+
  then show ?thesis by (rule string_of_nat_inj)
qed

subsection \<open>The tracking primitives step by step\<close>

lemma well_timed_Nil: "well_timed []"
  by (simp add: well_timed_def)

lemma well_timed_snoc:
  assumes "well_timed evs" and "time e = Suc (length evs)" and "action e \<noteq> ''end''"
    and "action e = ''alloc'' \<Longrightarrow> \<exists>lab. ev_id e = Some (lab @ ''_'' @ string_of_nat (time e))"
  shows "well_timed (evs @ [e])"
  using assms by (auto simp add: well_timed_def)

lemma well_timed_distinct:
  assumes w: "well_timed evs"
  shows "distinct (alloc_ids evs)"
proof -
  from w have t: "map time evs = [1..<Suc (length evs)]" by (simp add: well_timed_def)
  have "distinct (map time evs)" by (simp only: t distinct_upt)
  then have d: "distinct evs" and i: "inj_on time (set evs)" by (simp_all add: distinct_map)
  have "inj_on ev_id (set (filter (\<lambda>e. action e = ''alloc'') evs))"
  proof (rule inj_onI)
    fix a b
    assume a: "a \<in> set (filter (\<lambda>e. action e = ''alloc'') evs)"
      and b: "b \<in> set (filter (\<lambda>e. action e = ''alloc'') evs)"
      and e: "ev_id a = ev_id b"
    from a w obtain la where la: "ev_id a = Some (la @ ''_'' @ string_of_nat (time a))"
      by (auto simp add: well_timed_def)
    from b w obtain lb where lb: "ev_id b = Some (lb @ ''_'' @ string_of_nat (time b))"
      by (auto simp add: well_timed_def)
    from e la lb have "la @ ''_'' @ string_of_nat (time a) = lb @ ''_'' @ string_of_nat (time b)"
      by simp
    then have "time a = time b" by (rule synth_id_inj)
    with i a b show "a = b" by (auto dest: inj_onD)
  qed
  with d show ?thesis by (simp add: alloc_ids_def distinct_map)
qed

lemma well_timed_no_end: "well_timed evs \<Longrightarrow> end_events evs = []"
  by (auto simp add: well_timed_def end_events_def filter_empty_conv)

lemma js_alloc_Inr:
  assumes "js_alloc label sz s = Inr (i, s')"
  shows "\<exists>lab n. label = JStr lab \<and> sz = JNum n \<and> \<not> num_le_zero n
           \<and> length (js_events s) < MAX_EVENTS
           \<and> i = lab @ ''_'' @ string_of_nat (js_time s + 1)
           \<and> s' = s\<lparr>js_time := js_time s + 1,
                 js_allocs := AList.update i (lab, n) (js_allocs s),
                 js_events := js_events s @
                   [\<lparr>time = js_time s + 1, action = ''alloc'', ev_id = Some i,
                     ev_size = Some n, ev_label = Some lab\<rparr>]\<rparr>"
proof (cases label)
  case (JStr lab)
  show ?thesis
  proof (cases sz)
    case (JNum n)
    with JStr assms show ?thesis
      by (auto simp add: js_alloc_def Let_def split: if_splits)
  qed (use assms JStr in \<open>simp_all add: js_alloc_def\<close>)
qed (use assms in \<open>simp_all add: js_alloc_def\<close>)

lemma js_free_Inr:
  assumes "js_free i s = Inr s'"
  shows "\<exists>x. i = JStr x \<and> length (js_events s) < MAX_EVENTS
           \<and> (if map_of (js_allocs s) x = None
                then s' = s\<lparr>js_time := js_time s + 1,
                       js_events := js_events s @
                         [\<lparr>time = js_time s + 1, action = ''double_free'', ev_id = Some x,
                           ev_size = None, ev_label = None\<rparr>]\<rparr>
                else s' = s\<lparr>js_time := js_time s + 1,
                       js_allocs := AList.delete x (js_allocs s),
                       js_events := js_events s @
                         [\<lparr>time = js_time s + 1, action = ''free'', ev_id = Some x,
                           ev_size = None, ev_label = None\<rparr>]\<rparr>)"
proof (cases i)
  case (JStr x)
  with assms show ?thesis
    by (auto simp add: js_free_def Let_def split: if_splits)
qed (use assms in \<open>simp_all add: js_free_def\<close>)

lemma js_step_tracking:
  assumes "js_step c s = Inr s'" and "is_js_tracking c"
  shows "js_time s' = js_time s + 1 \<and> length (js_events s) < MAX_EVENTS \<and>
         js_stdout s' = js_stdout s \<and> js_stderr s' = js_stderr s \<and>
         (\<exists>e. js_events s' = js_events s @ [e] \<and> time e = js_time s + 1
            \<and> action e \<noteq> ''end''
            \<and> (action e = ''alloc'' \<longrightarrow>
                 (\<exists>lab. ev_id e = Some (lab @ ''_'' @ string_of_nat (time e)))))"
proof (cases c)
  case (JsAlloc label sz)
  with assms obtain i where "js_alloc label sz s = Inr (i, s')"
    by (cases "js_alloc label sz s") auto
  from js_alloc_Inr [OF this] show ?thesis by auto
next
  case (JsFree i)
  with assms have "js_free i s = Inr s'" by simp
  from js_free_Inr [OF this] show ?thesis by (auto split: if_splits)
qed (use assms in simp_all)

lemma js_step_output:
  assumes "js_step c s = Inr s'" and "\<not> is_js_tracking c"
  shows "js_time s' = js_time s \<and> js_events s' = js_events s \<and> js_allocs s' = js_allocs s"
  using assms by (cases c) auto

lemma js_exec_inv:
  assumes "js_exec cs s = (s', r)" and "js_time s = length (js_events s)"
    and "well_timed (js_events s)" and "length (js_events s) \<le> MAX_EVENTS"
  shows "js_time s' = length (js_events s') \<and> well_timed (js_events s') \<and>
         length (js_events s') \<le> MAX_EVENTS \<and>
         (r = None \<longrightarrow> length (js_events s') = length (js_events s) + length (filter is_js_tracking cs))"
  using assms
proof (induction cs arbitrary: s)
  case Nil
  then show ?case by simp
next
  case (Cons c cs)
  show ?case
  proof (cases "js_step c s")
    case (Inl e)
    with Cons.prems show ?thesis by auto
  next
    case (Inr s1)
    with Cons.prems have ex: "js_exec cs s1 = (s', r)" by simp
    show ?thesis
    proof (cases "is_js_tracking c")
      case True
      from js_step_tracking [OF Inr True] obtain e where
        t: "js_time s1 = js_time s + 1" and lim: "length (js_events s) < MAX_EVENTS" and ev: "js_events s1 = js_events s @ [e]"
        and te: "time e = js_time s + 1" and ne: "action e \<noteq> ''end''"
        and ia: "action e = ''alloc'' \<longrightarrow> (\<exists>lab. ev_id e = Some (lab @ ''_'' @ string_of_nat (time e)))"
        by blast
      from Cons.prems te have "time e = Suc (length (js_events s))" by simp
      with Cons.prems ne ia have w: "well_timed (js_events s1)"
        unfolding ev by (intro well_timed_snoc) auto
      from t ev Cons.prems have "js_time s1 = length (js_events s1)" by simp
      moreover from lim ev have "length (js_events s1) \<le> MAX_EVENTS" by simp
      ultimately show ?thesis using Cons.IH [OF ex _ w] ev True by simp
    next
      case False
      from js_step_output [OF Inr False] Cons.prems
      have "js_time s1 = length (js_events s1)" and "well_timed (js_events s1)"
        and "js_events s1 = js_events s" and "length (js_events s1) \<le> MAX_EVENTS" by simp_all
      with Cons.IH [OF ex] False show ?thesis by simp
    qed
  qed
qed

lemma py_alloc_Inr:
  assumes "py_alloc label sz s = Inr (i, s')"
  shows "\<exists>lab n. label = PStr lab \<and> is_int_or_float sz \<and> \<not> py_le_zero sz
           \<and> py_int sz = Inr n
           \<and> length (py_events s) < MAX_EVENTS
           \<and> i = lab @ ''_'' @ string_of_nat (py_time s + 1)
           \<and> s' = s\<lparr>py_time := py_time s + 1,
                 py_allocs := AList.update i (lab, n) (py_allocs s),
                 py_events := py_events s @
                   [\<lparr>time = py_time s + 1, action = ''alloc'', ev_id = Some i,
                     ev_size = Some n, ev_label = Some lab\<rparr>]\<rparr>"
proof (cases label)
  case (PStr lab)
  with assms show ?thesis
    by (auto simp add: py_alloc_def Let_def split: if_splits sum.splits)
qed (use assms in \<open>simp_all add: py_alloc_def\<close>)

lemma py_free_Inr:
  assumes "py_free i s = Inr s'"
  shows "\<exists>x. i = PStr x \<and> length (py_events s) < MAX_EVENTS
           \<and> (if map_of (py_allocs s) x = None
                then s' = s\<lparr>py_time := py_time s + 1,
                       py_events := py_events s @
                         [\<lparr>time = py_time s + 1, action = ''double_free'', ev_id = Some x,
                           ev_size = None, ev_label = None\<rparr>]\<rparr>
                else s' = s\<lparr>py_time := py_time s + 1,
                       py_allocs := AList.delete x (py_allocs s),
                       py_events := py_events s @
                         [\<lparr>time = py_time s + 1, action = ''free'', ev_id = Some x,
                           ev_size = None, ev_label = None\<rparr>]\<rparr>)"
proof (cases i)
  case (PStr x)
  with assms show ?thesis
    by (auto simp add: py_free_def Let_def split: if_splits)
qed (use assms in \<open>simp_all add: py_free_def\<close>)

lemma py_step_tracking:
  assumes "py_step c s = Inr s'" and "is_py_tracking c"
  shows "py_time s' = py_time s + 1 \<and> length (py_events s) < MAX_EVENTS \<and>
         py_stdout_capture s' = py_stdout_capture s \<and> py_stderr_capture s' = py_stderr_capture s \<and>
         (\<exists>e. py_events s' = py_events s @ [e] \<and> time e = py_time s + 1
            \<and> action e \<noteq> ''end''
            \<and> (action e = ''alloc'' \<longrightarrow>
                 (\<exists>lab. ev_id e = Some (lab @ ''_'' @ string_of_nat (time e)))))"
proof (cases c)
  case (PyAlloc label sz)
  with assms obtain i where "py_alloc label sz s = Inr (i, s')"
    by (cases "py_alloc label sz s") auto
  from py_alloc_Inr [OF this] show ?thesis by auto
next
  case (PyFree i)
  with assms have "py_free i s = Inr s'" by simp
  from py_free_Inr [OF this] show ?thesis by (auto split: if_splits)
qed (use assms in simp_all)

lemma py_step_output:
  assumes "py_step c s = Inr s'" and "\<not> is_py_tracking c"
  shows "py_time s' = py_time s \<and> py_events s' = py_events s \<and> py_allocs s' = py_allocs s"
  using assms by (cases c) auto

lemma py_exec_inv:
  assumes "py_exec cs s = (s', r)" and "py_time s = length (py_events s)"
    and "well_timed (py_events s)" and "length (py_events s) \<le> MAX_EVENTS"
  shows "py_time s' = length (py_events s') \<and> well_timed (py_events s') \<and>
         length (py_events s') \<le> MAX_EVENTS \<and>
         (r = None \<longrightarrow> length (py_events s') = length (py_events s) + length (filter is_py_tracking cs))"
  using assms
proof (induction cs arbitrary: s)
  case Nil
  then show ?case by simp
next
  case (Cons c cs)
  show ?case
  proof (cases "py_step c s")
    case (Inl e)
    with Cons.prems show ?thesis by auto
  next
    case (Inr s1)
    with Cons.prems have ex: "py_exec cs s1 = (s', r)" by simp
    show ?thesis
    proof (cases "is_py_tracking c")
      case True
      from py_step_tracking [OF Inr True] obtain e where
        t: "py_time s1 = py_time s + 1" and lim: "length (py_events s) < MAX_EVENTS" and ev: "py_events s1 = py_events s @ [e]"
        and te: "time e = py_time s + 1" and ne: "action e \<noteq> ''end''"
        and ia: "action e = ''alloc'' \<longrightarrow> (\<exists>lab. ev_id e = Some (lab @ ''_'' @ string_of_nat (time e)))"
        by blast
      from Cons.prems te have "time e = Suc (length (py_events s))" by simp
      with Cons.prems ne ia have w: "well_timed (py_events s1)"
        unfolding ev by (intro well_timed_snoc) auto
      from t ev Cons.prems have "py_time s1 = length (py_events s1)" by simp
      moreover from lim ev have "length (py_events s1) \<le> MAX_EVENTS" by simp
      ultimately show ?thesis using Cons.IH [OF ex _ w] ev True by simp
    next
      case False
      from py_step_output [OF Inr False] Cons.prems
      have "py_time s1 = length (py_events s1)" and "well_timed (py_events s1)"
        and "py_events s1 = py_events s" and "length (py_events s1) \<le> MAX_EVENTS" by simp_all
      with Cons.IH [OF ex] False show ?thesis by simp
    qed
  qed
qed

subsection \<open>Time counter and ids\<close>

lemma js_run_events:
  assumes "js_exec cs js_init = (s, None)"
  shows "js_time s = length (filter is_js_tracking cs)"
    and "length (js_events s) = length (filter is_js_tracking cs)"
    and "well_timed (js_events s)"
proof -
  have "js_time js_init = length (js_events js_init)" "well_timed (js_events js_init)"
    "length (js_events js_init) \<le> MAX_EVENTS"
    by (simp_all add: js_init_def well_timed_Nil)
  from js_exec_inv [OF assms this]
  show "js_time s = length (filter is_js_tracking cs)"
    and "length (js_events s) = length (filter is_js_tracking cs)"
    and "well_timed (js_events s)"
    by (simp_all add: js_init_def)
qed

lemma py_run_events:
  assumes "py_exec cs py_init = (s, None)"
  shows "py_time s = length (filter is_py_tracking cs)"
    and "length (py_events s) = length (filter is_py_tracking cs)"
    and "well_timed (py_events s)"
proof -
  have "py_time py_init = length (py_events py_init)" "well_timed (py_events py_init)"
    "length (py_events py_init) \<le> MAX_EVENTS"
    by (simp_all add: py_init_def well_timed_Nil)
  from py_exec_inv [OF assms this]
  show "py_time s = length (filter is_py_tracking cs)"
    and "length (py_events s) = length (filter is_py_tracking cs)"
    and "well_timed (py_events s)"
    by (simp_all add: py_init_def)
qed

text \<open>
  Claim C2. In a run whose tracking calls all succeed, on either surface, the counter
  ends at the number of tracking calls made, the recorded times are 1, 2, 3, ... (one
  tick per \<open>alloc\<close> and per \<open>free\<close>, starting at 1), and the ids that \<open>alloc\<close>
  synthesized are pairwise different, whatever labels were passed. Each successful
  \<open>alloc\<close> and each successful \<open>free\<close> adds exactly 1 to the counter, and the id
  \<open>alloc\<close> returns is the label, an underscore and the new counter value.
\<close>

theorem tracking_time_and_ids:
  "(js_exec cs js_init = (s, None) \<longrightarrow>
      js_time s = length (filter is_js_tracking cs) \<and>
      map time (js_events s) = [1..<Suc (length (filter is_js_tracking cs))] \<and>
      distinct (alloc_ids (js_events s))) \<and>
   (py_exec ps py_init = (p, None) \<longrightarrow>
      py_time p = length (filter is_py_tracking ps) \<and>
      map time (py_events p) = [1..<Suc (length (filter is_py_tracking ps))] \<and>
      distinct (alloc_ids (py_events p))) \<and>
   (js_alloc label sz s0 = Inr (i, s1) \<longrightarrow>
      js_time s1 = js_time s0 + 1 \<and> i = str_of label @ ''_'' @ string_of_nat (js_time s1)) \<and>
   (js_free fid s0 = Inr s2 \<longrightarrow> js_time s2 = js_time s0 + 1) \<and>
   (py_alloc plabel psz p0 = Inr (pid, p1) \<longrightarrow>
      py_time p1 = py_time p0 + 1 \<and> pid = str_of_py plabel @ ''_'' @ string_of_nat (py_time p1)) \<and>
   (py_free pfid p0 = Inr p2 \<longrightarrow> py_time p2 = py_time p0 + 1)"
proof (intro conjI impI)
  assume a: "js_exec cs js_init = (s, None)"
  show "js_time s = length (filter is_js_tracking cs)" by (rule js_run_events [OF a])
  from js_run_events(2,3) [OF a]
  show "map time (js_events s) = [1..<Suc (length (filter is_js_tracking cs))]"
    by (simp add: well_timed_def)
  from js_run_events(3) [OF a] show "distinct (alloc_ids (js_events s))"
    by (rule well_timed_distinct)
next
  assume a: "py_exec ps py_init = (p, None)"
  show "py_time p = length (filter is_py_tracking ps)" by (rule py_run_events [OF a])
  from py_run_events(2,3) [OF a]
  show "map time (py_events p) = [1..<Suc (length (filter is_py_tracking ps))]"
    by (simp add: well_timed_def)
  from py_run_events(3) [OF a] show "distinct (alloc_ids (py_events p))"
    by (rule well_timed_distinct)
next
  assume a: "js_alloc label sz s0 = Inr (i, s1)"
  from js_alloc_Inr [OF a] show "js_time s1 = js_time s0 + 1" by auto
  from js_alloc_Inr [OF a] show "i = str_of label @ ''_'' @ string_of_nat (js_time s1)" by auto
next
  assume a: "js_free fid s0 = Inr s2"
  from js_free_Inr [OF a] show "js_time s2 = js_time s0 + 1" by (auto split: if_splits)
next
  assume a: "py_alloc plabel psz p0 = Inr (pid, p1)"
  from py_alloc_Inr [OF a] show "py_time p1 = py_time p0 + 1" by auto
  from py_alloc_Inr [OF a] show "pid = str_of_py plabel @ ''_'' @ string_of_nat (py_time p1)" by auto
next
  assume a: "py_free pfid p0 = Inr p2"
  from py_free_Inr [OF a] show "py_time p2 = py_time p0 + 1" by (auto split: if_splits)
qed

lemma string_of_nat_small: "n < 10 \<Longrightarrow> string_of_nat n = [digit_char n]"
  by (simp add: string_of_nat.simps)

lemmas run_eval =
  js_init_def js_alloc_def js_free_def py_init_def py_alloc_def py_free_def
  MAX_EVENTS_def Let_def string_of_nat_small digit_char_def

theorem tracking_time_and_ids_witness:
  "js_exec [JsAlloc (JStr ''buf'') (JNum (Finite 64)), JsAlloc (JStr ''buf'') (JNum (Finite 64)),
            JsFree (JStr ''buf_1'')] js_init
     = (fst (js_exec [JsAlloc (JStr ''buf'') (JNum (Finite 64)), JsAlloc (JStr ''buf'') (JNum (Finite 64)),
            JsFree (JStr ''buf_1'')] js_init), None) \<and>
   map time (js_events (fst (js_exec [JsAlloc (JStr ''buf'') (JNum (Finite 64)),
            JsAlloc (JStr ''buf'') (JNum (Finite 64)), JsFree (JStr ''buf_1'')] js_init))) = [1, 2, 3] \<and>
   alloc_ids (js_events (fst (js_exec [JsAlloc (JStr ''buf'') (JNum (Finite 64)),
            JsAlloc (JStr ''buf'') (JNum (Finite 64)), JsFree (JStr ''buf_1'')] js_init)))
     = [Some ''buf_1'', Some ''buf_2''] \<and>
   py_exec [PyAlloc (PStr ''buf'') (PInt 64), PyAlloc (PStr ''buf'') (PInt 64),
            PyFree (PStr ''buf_2'')] py_init
     = (fst (py_exec [PyAlloc (PStr ''buf'') (PInt 64), PyAlloc (PStr ''buf'') (PInt 64),
            PyFree (PStr ''buf_2'')] py_init), None) \<and>
   map time (py_events (fst (py_exec [PyAlloc (PStr ''buf'') (PInt 64),
            PyAlloc (PStr ''buf'') (PInt 64), PyFree (PStr ''buf_2'')] py_init))) = [1, 2, 3]"
  using tracking_time_and_ids
    [of "[JsAlloc (JStr ''buf'') (JNum (Finite 64)), JsAlloc (JStr ''buf'') (JNum (Finite 64)),
            JsFree (JStr ''buf_1'')]"
        "fst (js_exec [JsAlloc (JStr ''buf'') (JNum (Finite 64)), JsAlloc (JStr ''buf'') (JNum (Finite 64)),
            JsFree (JStr ''buf_1'')] js_init)"
        "[PyAlloc (PStr ''buf'') (PInt 64), PyAlloc (PStr ''buf'') (PInt 64),
            PyFree (PStr ''buf_2'')]"
        "fst (py_exec [PyAlloc (PStr ''buf'') (PInt 64), PyAlloc (PStr ''buf'') (PInt 64),
            PyFree (PStr ''buf_2'')] py_init)"]
  by (simp add: run_eval alloc_ids_def)

subsection \<open>The end event\<close>

text \<open>
  Claim C1. When the user code of a run ends without an error, on either surface, the
  program delivers its events; their times count up from 1 without a gap. If the
  allocation table is not empty at that moment, the delivered events are the recorded
  ones followed by one \<open>end\<close> event whose time is the counter plus 1, and that is the
  only \<open>end\<close> event; if the table is empty, the delivered events are the recorded ones
  and none of them is an \<open>end\<close> event.
\<close>

theorem end_event_rule:
  "(js_exec user js_init = (s, None) \<longrightarrow>
      (\<exists>evs out err. js_run user = PostResult evs out err \<and>
         map time evs = [1..<Suc (length evs)] \<and>
         (js_allocs s \<noteq> [] \<longrightarrow>
            evs = js_events s @ [\<lparr>time = js_time s + 1, action = ''end'', ev_id = None,
                                   ev_size = None, ev_label = None\<rparr>] \<and>
            length (end_events evs) = 1) \<and>
         (js_allocs s = [] \<longrightarrow> evs = js_events s \<and> end_events evs = []))) \<and>
   (py_exec puser py_init = (p, None) \<longrightarrow>
      (\<exists>evs out err. py_run puser = Inr (evs, out, err) \<and>
         map time evs = [1..<Suc (length evs)] \<and>
         (py_allocs p \<noteq> [] \<longrightarrow>
            evs = py_events p @ [\<lparr>time = py_time p + 1, action = ''end'', ev_id = None,
                                   ev_size = None, ev_label = None\<rparr>] \<and>
            length (end_events evs) = 1) \<and>
         (py_allocs p = [] \<longrightarrow> evs = py_events p \<and> end_events evs = [])))"
proof (intro conjI impI)
  assume a: "js_exec user js_init = (s, None)"
  note t = js_run_events(1) [OF a] and l = js_run_events(2) [OF a] and w = js_run_events(3) [OF a]
  from w have m: "map time (js_events s) = [1..<Suc (length (js_events s))]"
    by (simp add: well_timed_def)
  from w have n: "end_events (js_events s) = []" by (rule well_timed_no_end)
  show "\<exists>evs out err. js_run user = PostResult evs out err \<and>
         map time evs = [1..<Suc (length evs)] \<and>
         (js_allocs s \<noteq> [] \<longrightarrow>
            evs = js_events s @ [\<lparr>time = js_time s + 1, action = ''end'', ev_id = None,
                                   ev_size = None, ev_label = None\<rparr>] \<and>
            length (end_events evs) = 1) \<and>
         (js_allocs s = [] \<longrightarrow> evs = js_events s \<and> end_events evs = [])"
  proof (cases "js_allocs s = []")
    case True
    with a m n show ?thesis by (simp add: js_run_def js_mark_leaks_def)
  next
    case False
    with a m n t l show ?thesis
      by (simp add: js_run_def js_mark_leaks_def Let_def end_events_def)
  qed
next
  assume a: "py_exec puser py_init = (p, None)"
  note t = py_run_events(1) [OF a] and l = py_run_events(2) [OF a] and w = py_run_events(3) [OF a]
  from w have m: "map time (py_events p) = [1..<Suc (length (py_events p))]"
    by (simp add: well_timed_def)
  from w have n: "end_events (py_events p) = []" by (rule well_timed_no_end)
  show "\<exists>evs out err. py_run puser = Inr (evs, out, err) \<and>
         map time evs = [1..<Suc (length evs)] \<and>
         (py_allocs p \<noteq> [] \<longrightarrow>
            evs = py_events p @ [\<lparr>time = py_time p + 1, action = ''end'', ev_id = None,
                                   ev_size = None, ev_label = None\<rparr>] \<and>
            length (end_events evs) = 1) \<and>
         (py_allocs p = [] \<longrightarrow> evs = py_events p \<and> end_events evs = [])"
  proof (cases "py_allocs p = []")
    case True
    with a m n show ?thesis by (simp add: py_run_def py_mark_leaks_def)
  next
    case False
    with a m n t l show ?thesis
      by (simp add: py_run_def py_mark_leaks_def Let_def end_events_def)
  qed
qed

theorem end_event_rule_witness:
  "js_exec [JsAlloc (JStr ''buf'') (JNum (Finite 1024))] js_init
     = (fst (js_exec [JsAlloc (JStr ''buf'') (JNum (Finite 1024))] js_init), None) \<and>
   js_allocs (fst (js_exec [JsAlloc (JStr ''buf'') (JNum (Finite 1024))] js_init)) \<noteq> [] \<and>
   js_run [JsAlloc (JStr ''buf'') (JNum (Finite 1024))]
     = PostResult
         [\<lparr>time = 1, action = ''alloc'', ev_id = Some ''buf_1'', ev_size = Some (Finite 1024),
           ev_label = Some ''buf''\<rparr>,
          \<lparr>time = 2, action = ''end'', ev_id = None, ev_size = None, ev_label = None\<rparr>] [] [] \<and>
   py_exec [PyAlloc (PStr ''x'') (PInt 64), PyFree (PStr ''x_1'')] py_init
     = (fst (py_exec [PyAlloc (PStr ''x'') (PInt 64), PyFree (PStr ''x_1'')] py_init), None) \<and>
   py_allocs (fst (py_exec [PyAlloc (PStr ''x'') (PInt 64), PyFree (PStr ''x_1'')] py_init)) = [] \<and>
   py_run [PyAlloc (PStr ''x'') (PInt 64), PyFree (PStr ''x_1'')]
     = Inr ([\<lparr>time = 1, action = ''alloc'', ev_id = Some ''x_1'', ev_size = Some 64,
              ev_label = Some ''x''\<rparr>,
             \<lparr>time = 2, action = ''free'', ev_id = Some ''x_1'', ev_size = None,
              ev_label = None\<rparr>], [], [])"
  using end_event_rule
    [of "[JsAlloc (JStr ''buf'') (JNum (Finite 1024))]"
        "fst (js_exec [JsAlloc (JStr ''buf'') (JNum (Finite 1024))] js_init)"
        "[PyAlloc (PStr ''x'') (PInt 64), PyFree (PStr ''x_1'')]"
        "fst (py_exec [PyAlloc (PStr ''x'') (PInt 64), PyFree (PStr ''x_1'')] py_init)"]
  by (simp add: run_eval js_run_def js_mark_leaks_def py_run_def py_mark_leaks_def)

subsection \<open>The event ceiling\<close>


lemma py_exec_append:
  "py_exec (a @ b) s =
     (case py_exec a s of (s', None) \<Rightarrow> py_exec b s' | (s', Some e) \<Rightarrow> (s', Some e))"
  by (induction a arbitrary: s) (auto split: sum.splits)

lemma js_exec_replicate_free:
  assumes "js_allocs s = []" and "length (js_events s) + n \<le> MAX_EVENTS"
  shows "\<exists>s'. js_exec (replicate n (JsFree (JStr x))) s = (s', None)
           \<and> length (js_events s') = length (js_events s) + n \<and> js_allocs s' = []
           \<and> js_stdout s' = js_stdout s \<and> js_stderr s' = js_stderr s"
  using assms
proof (induction n arbitrary: s)
  case 0
  then show ?case by simp
next
  case (Suc n)
  let ?s1 = "s\<lparr>js_time := js_time s + 1,
               js_events := js_events s @
                 [\<lparr>time = js_time s + 1, action = ''double_free'', ev_id = Some x,
                   ev_size = None, ev_label = None\<rparr>]\<rparr>"
  from Suc.prems have st: "js_free (JStr x) s = Inr ?s1"
    by (simp add: js_free_def Let_def)
  from Suc.prems have "js_allocs ?s1 = []" "length (js_events ?s1) + n \<le> MAX_EVENTS"
    by simp_all
  from Suc.IH [OF this] st show ?case by auto
qed

lemma py_exec_replicate_free:
  assumes "py_allocs s = []" and "length (py_events s) + n \<le> MAX_EVENTS"
  shows "\<exists>s'. py_exec (replicate n (PyFree (PStr x))) s = (s', None)
           \<and> length (py_events s') = length (py_events s) + n \<and> py_allocs s' = []"
  using assms
proof (induction n arbitrary: s)
  case 0
  then show ?case by simp
next
  case (Suc n)
  let ?s1 = "s\<lparr>py_time := py_time s + 1,
               py_events := py_events s @
                 [\<lparr>time = py_time s + 1, action = ''double_free'', ev_id = Some x,
                   ev_size = None, ev_label = None\<rparr>]\<rparr>"
  from Suc.prems have st: "py_free (PStr x) s = Inr ?s1"
    by (simp add: py_free_def Let_def)
  from Suc.prems have "py_allocs ?s1 = []" "length (py_events ?s1) + n \<le> MAX_EVENTS"
    by simp_all
  from Suc.IH [OF this] st show ?case by auto
qed

text \<open>The state of a run that has made 10,000 calls \<open>free("x")\<close>, all recorded.\<close>

lemma js_full:
  "\<exists>s'. js_exec (replicate 10000 (JsFree (JStr x))) js_init = (s', None)
      \<and> length (js_events s') = MAX_EVENTS \<and> js_allocs s' = []
      \<and> js_stdout s' = [] \<and> js_stderr s' = []"
  using js_exec_replicate_free [of js_init 10000 x]
  by (simp add: js_init_def MAX_EVENTS_def)

lemma py_full:
  "\<exists>s'. py_exec (replicate 10000 (PyFree (PStr x))) py_init = (s', None)
      \<and> length (py_events s') = MAX_EVENTS \<and> py_allocs s' = []"
  using py_exec_replicate_free [of py_init 10000 x]
  by (simp add: py_init_def MAX_EVENTS_def)























subsection \<open>Freeing an id that is not live\<close>

text \<open>
  Claim C4, as amended. While the event list holds fewer than 10,000 events, a call
  \<open>free(id)\<close> with a string id that is not in the allocation table, on either
  surface, raises no error: it appends a \<open>double_free\<close> event carrying that id, with
  the next time, leaves the allocation table as it was, and the calls after it run
  from the resulting state.
\<close>

theorem double_free_rule:
  "(map_of (js_allocs s) x = None \<and> length (js_events s) < MAX_EVENTS \<longrightarrow>
      (\<exists>s'. js_free (JStr x) s = Inr s' \<and>
         js_events s' = js_events s @
           [\<lparr>time = js_time s + 1, action = ''double_free'', ev_id = Some x,
             ev_size = None, ev_label = None\<rparr>] \<and>
         js_allocs s' = js_allocs s \<and>
         js_exec (JsFree (JStr x) # rest) s = js_exec rest s')) \<and>
   (map_of (py_allocs p) x = None \<and> length (py_events p) < MAX_EVENTS \<longrightarrow>
      (\<exists>p'. py_free (PStr x) p = Inr p' \<and>
         py_events p' = py_events p @
           [\<lparr>time = py_time p + 1, action = ''double_free'', ev_id = Some x,
             ev_size = None, ev_label = None\<rparr>] \<and>
         py_allocs p' = py_allocs p \<and>
         py_exec (PyFree (PStr x) # prest) p = py_exec prest p'))"
  by (simp add: js_free_def py_free_def Let_def)

theorem double_free_rule_witness:
  "map_of (js_allocs js_init) ''never_allocated'' = None \<and>
   length (js_events js_init) < MAX_EVENTS \<and>
   js_free (JStr ''never_allocated'') js_init
     = Inr (js_init\<lparr>js_time := 1,
         js_events := [\<lparr>time = 1, action = ''double_free'', ev_id = Some ''never_allocated'',
                        ev_size = None, ev_label = None\<rparr>]\<rparr>) \<and>
   map_of (py_allocs py_init) ''never_allocated'' = None \<and>
   length (py_events py_init) < MAX_EVENTS \<and>
   py_free (PStr ''never_allocated'') py_init
     = Inr (py_init\<lparr>py_time := 1,
         py_events := [\<lparr>time = 1, action = ''double_free'', ev_id = Some ''never_allocated'',
                        ev_size = None, ev_label = None\<rparr>]\<rparr>)"
  using double_free_rule [of js_init "''never_allocated''" "[]" py_init "[]"]
  by (simp add: js_init_def py_init_def MAX_EVENTS_def js_free_def py_free_def)

text \<open>
  The claim as written fails at the event ceiling: after 10,000 recorded events a
  \<open>free\<close> of an id that is not live raises the limit error and appends nothing.
\<close>

theorem double_free_counterexample:
  "map_of (js_allocs (fst (js_exec (replicate 10000 (JsFree (JStr ''x''))) js_init))) ''x'' = None \<and>
   js_free (JStr ''x'') (fst (js_exec (replicate 10000 (JsFree (JStr ''x''))) js_init))
     = Inl limit_message \<and>
   map_of (py_allocs (fst (py_exec (replicate 10000 (PyFree (PStr ''x''))) py_init))) ''x'' = None \<and>
   py_free (PStr ''x'') (fst (py_exec (replicate 10000 (PyFree (PStr ''x''))) py_init))
     = Inl limit_message"
proof -
  obtain s where s: "js_exec (replicate 10000 (JsFree (JStr ''x''))) js_init = (s, None)"
    "length (js_events s) = MAX_EVENTS" "js_allocs s = []"
    using js_full [of "''x''"] by blast
  obtain p where p: "py_exec (replicate 10000 (PyFree (PStr ''x''))) py_init = (p, None)"
    "length (py_events p) = MAX_EVENTS" "py_allocs p = []"
    using py_full [of "''x''"] by blast
  from s p show ?thesis by (simp add: js_free_def py_free_def)
qed

subsection \<open>Fractional sizes\<close>

text \<open>
  Claim C9, as amended. While the event list holds fewer than 10,000 events, a call
  \<open>alloc(label, size)\<close> with a positive non-integer size succeeds on both surfaces.
  The JavaScript surface records the size unchanged; the Python surface records
  \<open>int(size)\<close>, the size truncated to an integer, which differs from the value given.
\<close>

theorem fractional_size_rule:
  "(0 < r \<and> r \<notin> \<int> \<and> length (js_events s) < MAX_EVENTS \<longrightarrow>
      (\<exists>i s'. js_alloc (JStr l) (JNum (Finite r)) s = Inr (i, s') \<and>
         js_events s' = js_events s @
           [\<lparr>time = js_time s + 1, action = ''alloc'', ev_id = Some i,
             ev_size = Some (Finite r), ev_label = Some l\<rparr>])) \<and>
   (0 < r \<and> r \<notin> \<int> \<and> length (py_events p) < MAX_EVENTS \<longrightarrow>
      (\<exists>i p'. py_alloc (PStr l) (PFloat (Finite r)) p = Inr (i, p') \<and>
         py_events p' = py_events p @
           [\<lparr>time = py_time p + 1, action = ''alloc'', ev_id = Some i,
             ev_size = Some \<lfloor>r\<rfloor>, ev_label = Some l\<rparr>] \<and>
         of_int \<lfloor>r\<rfloor> \<noteq> r))"
proof (intro conjI impI)
  assume "0 < r \<and> r \<notin> \<int> \<and> length (js_events s) < MAX_EVENTS"
  then show "\<exists>i s'. js_alloc (JStr l) (JNum (Finite r)) s = Inr (i, s') \<and>
         js_events s' = js_events s @
           [\<lparr>time = js_time s + 1, action = ''alloc'', ev_id = Some i,
             ev_size = Some (Finite r), ev_label = Some l\<rparr>]"
    by (simp add: js_alloc_def Let_def)
next
  assume a: "0 < r \<and> r \<notin> \<int> \<and> length (py_events p) < MAX_EVENTS"
  then have "of_int \<lfloor>r\<rfloor> \<noteq> r" by (metis Ints_of_int)
  with a show "\<exists>i p'. py_alloc (PStr l) (PFloat (Finite r)) p = Inr (i, p') \<and>
         py_events p' = py_events p @
           [\<lparr>time = py_time p + 1, action = ''alloc'', ev_id = Some i,
             ev_size = Some \<lfloor>r\<rfloor>, ev_label = Some l\<rparr>] \<and>
         of_int \<lfloor>r\<rfloor> \<noteq> r"
    by (simp add: py_alloc_def Let_def)
qed

theorem fractional_size_rule_witness:
  "(0::rat) < 21 / 2 \<and> (21 / 2 :: rat) \<notin> \<int> \<and> length (js_events js_init) < MAX_EVENTS \<and>
   js_alloc (JStr ''x'') (JNum (Finite (21 / 2))) js_init
     = Inr (''x_1'', js_init\<lparr>js_time := 1,
         js_allocs := [(''x_1'', (''x'', Finite (21 / 2)))],
         js_events := [\<lparr>time = 1, action = ''alloc'', ev_id = Some ''x_1'',
                        ev_size = Some (Finite (21 / 2)), ev_label = Some ''x''\<rparr>]\<rparr>) \<and>
   length (py_events py_init) < MAX_EVENTS \<and>
   (\<exists>i p'. py_alloc (PStr ''x'') (PFloat (Finite (21 / 2))) py_init = Inr (i, p') \<and>
      py_events p' = [\<lparr>time = 1, action = ''alloc'', ev_id = Some i,
                       ev_size = Some 10, ev_label = Some ''x''\<rparr>])"
proof -
  have f: "\<lfloor>21 / 2 :: rat\<rfloor> = 10" by (simp add: floor_eq_iff)
  have n: "(21 / 2 :: rat) \<notin> \<int>"
  proof
    assume "(21 / 2 :: rat) \<in> \<int>"
    then obtain k :: int where "(21 / 2 :: rat) = of_int k" by (auto elim: Ints_cases)
    then have "(of_int (2 * k) :: rat) = of_int 21" by simp
    then have "2 * k = 21" by (simp only: of_int_eq_iff)
    then show False by presburger
  qed
  from n f fractional_size_rule [of "21 / 2" js_init "''x''" py_init]
  show ?thesis
    by (simp add: run_eval)
qed

text \<open>
  The claim as written fails on the Python surface, where \<open>alloc("x", 10.5)\<close> records
  size 10, and on both surfaces at the event ceiling, where the call does not succeed.
\<close>

theorem fractional_size_counterexample:
  "py_alloc (PStr ''x'') (PFloat (Finite (21 / 2))) py_init
     = Inr (''x_1'', py_init\<lparr>py_time := 1,
         py_allocs := [(''x_1'', (''x'', 10))],
         py_events := [\<lparr>time = 1, action = ''alloc'', ev_id = Some ''x_1'',
                        ev_size = Some 10, ev_label = Some ''x''\<rparr>]\<rparr>) \<and>
   (of_int 10 :: rat) \<noteq> 21 / 2 \<and>
   js_alloc (JStr ''x'') (JNum (Finite (21 / 2)))
      (fst (js_exec (replicate 10000 (JsFree (JStr ''y''))) js_init)) = Inl limit_message"
proof -
  have f: "\<lfloor>21 / 2 :: rat\<rfloor> = 10" by (simp add: floor_eq_iff)
  obtain s where s: "js_exec (replicate 10000 (JsFree (JStr ''y''))) js_init = (s, None)"
    "length (js_events s) = MAX_EVENTS"
    using js_full [of "''y''"] by blast
  from f s show ?thesis by (simp add: run_eval)
qed

subsection \<open>The result validator\<close>

lemma typeof_number: "typeof v = ''number'' \<longleftrightarrow> (\<exists>n. v = JNum n)"
  by (cases v) simp_all

lemma typeof_string: "typeof v = ''string'' \<longleftrightarrow> (\<exists>x. v = JStr x)"
  by (cases v) simp_all

lemma kept_iff_valid:
  "(\<not> (\<not> truthy e \<or> typeof e \<noteq> ''object'') \<and>
    \<not> (typeof (get_prop e ''time'') \<noteq> ''number'' \<or> typeof (get_prop e ''action'') \<noteq> ''string''))
   \<longleftrightarrow> is_valid_entry e"
proof (cases e)
  case (JObj ps)
  show ?thesis
    unfolding JObj
    by (auto simp add: typeof_number typeof_string split: option.splits jsval.splits)
qed simp_all

lemma validate_loop_filter:
  "validate_loop xs acc = acc @ map build_event (filter is_valid_entry xs)"
proof (induction xs arbitrary: acc)
  case Nil
  show ?case by simp
next
  case (Cons e xs)
  show ?case
  proof (cases "is_valid_entry e")
    case True
    with kept_iff_valid [of e] Cons.IH show ?thesis by simp
  next
    case False
    with kept_iff_valid [of e] have
      "\<not> truthy e \<or> typeof e \<noteq> ''object'' \<or> typeof (get_prop e ''time'') \<noteq> ''number''
        \<or> typeof (get_prop e ''action'') \<noteq> ''string''"
      by blast
    with False Cons.IH show ?thesis by auto
  qed
qed

lemma validateEvents_array:
  "validateEvents (JArr xs) = map build_event (filter is_valid_entry xs)"
  by (simp add: validateEvents_def validate_loop_filter)

lemma validateEvents_not_array: "\<not> isArray raw \<Longrightarrow> validateEvents raw = []"
  by (simp add: validateEvents_def)

lemma build_event_keys:
  "fst ` set (props (build_event e)) \<subseteq> {''time'', ''action'', ''id'', ''size'', ''label''}"
  by (auto simp add: build_event_def)

lemma build_event_required:
  "get_prop (build_event e) ''time'' = get_prop e ''time''"
  "get_prop (build_event e) ''action'' = get_prop e ''action''"
  by (simp_all add: build_event_def)

lemma build_event_id:
  "map_of (props (build_event e)) ''id'' =
     (if typeof (get_prop e ''id'') = ''string'' then Some (get_prop e ''id'') else None)"
  by (simp add: build_event_def)

lemma build_event_size:
  "map_of (props (build_event e)) ''size'' =
     (if typeof (get_prop e ''size'') = ''number'' then Some (get_prop e ''size'') else None)"
  by (simp add: build_event_def)

lemma build_event_label:
  "map_of (props (build_event e)) ''label'' =
     (if typeof (get_prop e ''label'') = ''string'' then Some (get_prop e ''label'') else None)"
  by (simp add: build_event_def)

text \<open>
  Claim C5. The validator returns the empty list for an input that is not an array.
  For an array it returns, in the order of the input, one object for each entry that
  is a non-null object with a numeric \<open>time\<close> and a string \<open>action\<close>, and nothing for
  any other entry. The object built for an entry copies \<open>time\<close> and \<open>action\<close>, has
  each of \<open>id\<close>, \<open>size\<close>, \<open>label\<close> exactly when the entry holds it with the right
  type, and has no other key.
\<close>

theorem validator_contract:
  "(\<not> isArray raw \<longrightarrow> validateEvents raw = []) \<and>
   validateEvents (JArr xs) = map build_event (filter is_valid_entry xs) \<and>
   fst ` set (props (build_event e)) \<subseteq> {''time'', ''action'', ''id'', ''size'', ''label''} \<and>
   get_prop (build_event e) ''time'' = get_prop e ''time'' \<and>
   get_prop (build_event e) ''action'' = get_prop e ''action'' \<and>
   map_of (props (build_event e)) ''id'' =
     (if typeof (get_prop e ''id'') = ''string'' then Some (get_prop e ''id'') else None) \<and>
   map_of (props (build_event e)) ''size'' =
     (if typeof (get_prop e ''size'') = ''number'' then Some (get_prop e ''size'') else None) \<and>
   map_of (props (build_event e)) ''label'' =
     (if typeof (get_prop e ''label'') = ''string'' then Some (get_prop e ''label'') else None)"
  using validateEvents_not_array [of raw] validateEvents_array [of xs] build_event_keys [of e]
    build_event_required [of e] build_event_id [of e] build_event_size [of e]
    build_event_label [of e]
  by (intro conjI impI)

theorem validator_contract_witness:
  "\<not> isArray (JStr ''string'') \<and> validateEvents (JStr ''string'') = [] \<and>
   validateEvents (JArr
     [JObj [(''time'', JNum (Finite 1)), (''action'', JStr ''alloc''), (''id'', JNum (Finite 123)),
            (''size'', JNum (Finite 10)), (''extraField'', JStr ''hacker'')],
      JObj [(''bad'', JStr ''event'')],
      JNull,
      JNum (Finite 42),
      JObj [(''time'', JStr ''1''), (''action'', JStr ''alloc'')],
      JObj [(''time'', JNum (Finite 2)), (''action'', JStr ''free''), (''id'', JStr ''x_1'')]])
   = [JObj [(''time'', JNum (Finite 1)), (''action'', JStr ''alloc''), (''size'', JNum (Finite 10))],
      JObj [(''time'', JNum (Finite 2)), (''action'', JStr ''free''), (''id'', JStr ''x_1'')]]"
  using validator_contract
    [of "JStr ''string''"
        "[JObj [(''time'', JNum (Finite 1)), (''action'', JStr ''alloc''), (''id'', JNum (Finite 123)),
            (''size'', JNum (Finite 10)), (''extraField'', JStr ''hacker'')],
      JObj [(''bad'', JStr ''event'')],
      JNull,
      JNum (Finite 42),
      JObj [(''time'', JStr ''1''), (''action'', JStr ''alloc'')],
      JObj [(''time'', JNum (Finite 2)), (''action'', JStr ''free''), (''id'', JStr ''x_1'')]]"
        "JNull"]
  by (simp add: build_event_def)

lemma validateResult_js_events:
  assumes "map_of qs ''events'' = Some (JArr xs)"
  shows "\<exists>r. validateResult_js (JObj qs) = Inr r \<and>
           r_events r = map build_event (filter is_valid_entry xs)"
  using assms by (simp add: validateResult_js_def validate_loop_filter)

lemma validateResult_py_events:
  assumes "map_of qs ''events'' = Some (JArr xs)"
  shows "\<exists>r. validateResult_py (JObj qs) = Inr r \<and>
           r_events r = map build_event (filter is_valid_entry xs)"
  using assms by (simp add: validateResult_py_def validate_loop_filter)

text \<open>
  Claim C10. The validator does not restrict \<open>action\<close> to the four known values: an
  entry whose \<open>time\<close> is a number and whose \<open>action\<close> is any string is kept, in the
  controller's \<open>validateEvents\<close> and in the runtimes' \<open>validateResult\<close> alike, and
  the object built for it carries that action string unchanged.
\<close>

theorem action_not_restricted:
  "map_of ps ''time'' = Some (JNum n) \<and> map_of ps ''action'' = Some (JStr a) \<longrightarrow>
     validateEvents (JArr (before @ JObj ps # after))
       = validateEvents (JArr before) @ build_event (JObj ps) # validateEvents (JArr after) \<and>
     get_prop (build_event (JObj ps)) ''action'' = JStr a \<and>
     (map_of qs ''events'' = Some (JArr (before @ JObj ps # after)) \<longrightarrow>
        (\<exists>r. validateResult_js (JObj qs) = Inr r \<and> build_event (JObj ps) \<in> set (r_events r)) \<and>
        (\<exists>r. validateResult_py (JObj qs) = Inr r \<and> build_event (JObj ps) \<in> set (r_events r)))"
proof (intro impI)
  assume a: "map_of ps ''time'' = Some (JNum n) \<and> map_of ps ''action'' = Some (JStr a)"
  then have v: "is_valid_entry (JObj ps)" by simp
  have 1: "validateEvents (JArr (before @ JObj ps # after))
       = validateEvents (JArr before) @ build_event (JObj ps) # validateEvents (JArr after)"
    using v by (simp add: validateEvents_array)
  have 2: "get_prop (build_event (JObj ps)) ''action'' = JStr a"
    using a by (simp add: build_event_required)
  have 3: "(\<exists>r. validateResult_js (JObj qs) = Inr r \<and> build_event (JObj ps) \<in> set (r_events r)) \<and>
        (\<exists>r. validateResult_py (JObj qs) = Inr r \<and> build_event (JObj ps) \<in> set (r_events r))"
    if q: "map_of qs ''events'' = Some (JArr (before @ JObj ps # after))"
    using validateResult_js_events [OF q] validateResult_py_events [OF q] v by auto
  from 1 2 3 show "validateEvents (JArr (before @ JObj ps # after))
       = validateEvents (JArr before) @ build_event (JObj ps) # validateEvents (JArr after) \<and>
     get_prop (build_event (JObj ps)) ''action'' = JStr a \<and>
     (map_of qs ''events'' = Some (JArr (before @ JObj ps # after)) \<longrightarrow>
        (\<exists>r. validateResult_js (JObj qs) = Inr r \<and> build_event (JObj ps) \<in> set (r_events r)) \<and>
        (\<exists>r. validateResult_py (JObj qs) = Inr r \<and> build_event (JObj ps) \<in> set (r_events r)))"
    by blast
qed

theorem action_not_restricted_witness:
  "map_of [(''time'', JNum (Finite 7)), (''action'', JStr ''bogus'')] ''time'' = Some (JNum (Finite 7)) \<and>
   map_of [(''time'', JNum (Finite 7)), (''action'', JStr ''bogus'')] ''action'' = Some (JStr ''bogus'') \<and>
   validateEvents (JArr [JObj [(''time'', JNum (Finite 7)), (''action'', JStr ''bogus'')]])
     = [JObj [(''time'', JNum (Finite 7)), (''action'', JStr ''bogus'')]] \<and>
   map_of [(''events'', JArr [JObj [(''time'', JNum (Finite 7)), (''action'', JStr ''bogus'')]])] ''events''
     = Some (JArr [JObj [(''time'', JNum (Finite 7)), (''action'', JStr ''bogus'')]]) \<and>
   (\<exists>r. validateResult_js
           (JObj [(''events'', JArr [JObj [(''time'', JNum (Finite 7)), (''action'', JStr ''bogus'')]])])
         = Inr r \<and>
        JObj [(''time'', JNum (Finite 7)), (''action'', JStr ''bogus'')] \<in> set (r_events r))"
  using action_not_restricted
    [of "[(''time'', JNum (Finite 7)), (''action'', JStr ''bogus'')]" "Finite 7" "''bogus''" "[]" "[]"
        "[(''events'', JArr [JObj [(''time'', JNum (Finite 7)), (''action'', JStr ''bogus'')]])]"]
  by (simp add: build_event_def validateEvents_def)

subsection \<open>The transformers\<close>

lemma split_on_nonempty: "split_on c xs \<noteq> []"
  by (induction xs) (auto split: list.splits)

lemma split_on_no_sep: "c \<notin> set xs \<Longrightarrow> split_on c xs = [xs]"
  by (induction xs) auto

text \<open>Joining the pieces with the separator gives the string back.\<close>

lemma join_split_on: "join [c] (split_on c xs) = xs"
proof (induction xs)
  case Nil
  show ?case by simp
next
  case (Cons x xs)
  obtain l ls where s: "split_on c xs = l # ls"
    using split_on_nonempty [of c xs] by (cases "split_on c xs") auto
  with Cons.IH show ?case by (cases ls) auto
qed

lemma indent_lines_single:
  "CHR ''\<newline>'' \<notin> set userCode \<Longrightarrow> indent_lines userCode = ''    '' @ userCode"
  by (simp add: indent_lines_def split_on_no_sep)

text \<open>
  Claim C7, as amended. Each transformer is a function of the source alone: its
  output is a fixed text, the source in its embedded form, and a second fixed text.
  The JavaScript transformer embeds the source as it is, so the source is a
  contiguous part of the output. The Python transformer embeds the source with four
  spaces put before every line; that indented text is a contiguous part of the output,
  and a source without a line break is one too.
\<close>

theorem transformer_embedding:
  "instrumentJs userCode = js_prelude @ userCode @ js_postlude \<and>
   sublist userCode (instrumentJs userCode) \<and>
   instrumentPython userCode = py_prelude @ indent_lines userCode @ py_postlude \<and>
   sublist (indent_lines userCode) (instrumentPython userCode) \<and>
   indent_lines userCode
     = join ''\<newline>'' (map (\<lambda>line. ''    '' @ line) (split_on CHR ''\<newline>'' userCode)) \<and>
   join ''\<newline>'' (split_on CHR ''\<newline>'' userCode) = userCode \<and>
   (CHR ''\<newline>'' \<notin> set userCode \<longrightarrow> sublist userCode (instrumentPython userCode))"
proof (intro conjI impI)
  show "instrumentJs userCode = js_prelude @ userCode @ js_postlude"
    by (simp add: instrumentJs_def)
  show "sublist userCode (instrumentJs userCode)"
    by (simp add: instrumentJs_def)
  show "instrumentPython userCode = py_prelude @ indent_lines userCode @ py_postlude"
    by (simp add: instrumentPython_def)
  show "sublist (indent_lines userCode) (instrumentPython userCode)"
    by (simp add: instrumentPython_def)
  show "indent_lines userCode
     = join ''\<newline>'' (map (\<lambda>line. ''    '' @ line) (split_on CHR ''\<newline>'' userCode))"
    by (simp add: indent_lines_def)
  show "join ''\<newline>'' (split_on CHR ''\<newline>'' userCode) = userCode"
    by (rule join_split_on)
next
  assume "CHR ''\<newline>'' \<notin> set userCode"
  then have "instrumentPython userCode = (py_prelude @ ''    '') @ userCode @ py_postlude"
    by (simp add: instrumentPython_def indent_lines_single)
  then show "sublist userCode (instrumentPython userCode)"
    by (simp only: sublist_appendI)
qed

theorem transformer_embedding_witness:
  "CHR ''\<newline>'' \<notin> set ''x = alloc(1)'' \<and>
   sublist ''x = alloc(1)'' (instrumentPython ''x = alloc(1)'') \<and>
   sublist ''x = alloc(1)'' (instrumentJs ''x = alloc(1)'')"
proof -
  have n: "CHR ''\<newline>'' \<notin> set ''x = alloc(1)''" by simp
  from n transformer_embedding [of "''x = alloc(1)''"] show ?thesis by blast
qed

text \<open>
  The claim as written fails for the Python transformer on a source of two lines:
  the second line is indented in the output, so the source is not a part of it.
\<close>

theorem transformer_embedding_counterexample:
  "\<not> sublist ''a = 1\<newline>b = 2\<newline>c = a + b'' (instrumentPython ''a = 1\<newline>b = 2\<newline>c = a + b'')"
  by (simp add: instrumentPython_def indent_lines_def py_prelude_def py_postlude_def sublist_code)

subsection \<open>The run controller\<close>

lemma cleanup_effect:
  assumes "controller_inv c"
  shows "workerRef (cleanup c) = None" "timeoutRef (cleanup c) = None"
    "live_workers (cleanup c) = {}" "pending_timers (cleanup c) = {}"
    "state (cleanup c) = state c" "next_worker (cleanup c) = next_worker c"
  using assms
  by (auto simp add: controller_inv_def cleanup_def clear_timeout_ref_def terminate_worker_ref_def
        split: option.splits)

lemma clear_timeout_ref_effect:
  assumes "controller_inv c"
  shows "timeoutRef (clear_timeout_ref c) = None" "pending_timers (clear_timeout_ref c) = {}"
    "live_workers (clear_timeout_ref c) = live_workers c"
    "workerRef (clear_timeout_ref c) = workerRef c"
  using assms
  by (auto simp add: controller_inv_def clear_timeout_ref_def split: option.splits)

lemma inv_init: "controller_inv controller_init"
  by (simp add: controller_inv_def controller_init_def INITIAL_STATE_def)

lemma inv_run: "controller_inv c \<Longrightarrow> controller_inv (run language code c)"
  using cleanup_effect [of c]
  by (simp add: run_def Let_def controller_inv_def INITIAL_STATE_def)

lemma inv_stop: "controller_inv c \<Longrightarrow> controller_inv (stop c)"
  using cleanup_effect [of c]
  by (auto simp add: stop_def Let_def controller_inv_def)

lemma inv_timeout: "controller_inv c \<Longrightarrow> controller_inv (on_timeout t c)"
proof -
  assume i: "controller_inv c"
  then have "controller_inv (c\<lparr>pending_timers := pending_timers c - {t}\<rparr>)"
    by (auto simp add: controller_inv_def)
  from cleanup_effect [OF this] show ?thesis
    by (simp add: on_timeout_def Let_def controller_inv_def)
qed

lemma inv_message:
  "controller_inv c \<Longrightarrow> w \<in> live_workers c \<Longrightarrow> controller_inv (on_message w msg c)"
proof -
  assume i: "controller_inv c" and w: "w \<in> live_workers c"
  from i w have l: "live_workers c = {w}" and r: "workerRef c = Some w"
    by (cases "workerRef c"; auto simp add: controller_inv_def)+
  show ?thesis
  proof (cases msg)
    case (StatusMsg st)
    with i w show ?thesis by (auto simp add: on_message_def controller_inv_def)
  next
    case (ResultMsg raw out err)
    with clear_timeout_ref_effect [OF i] l show ?thesis
      by (simp add: on_message_def Let_def controller_inv_def)
  next
    case (ErrorMsg e out err)
    with clear_timeout_ref_effect [OF i] l show ?thesis
      by (simp add: on_message_def Let_def controller_inv_def)
  qed
qed

lemma inv_error: "controller_inv c \<Longrightarrow> controller_inv (on_error message c)"
  using cleanup_effect [of c]
  by (simp add: on_error_def controller_inv_def)

lemma reachable_inv: "reachable c \<Longrightarrow> controller_inv c"
  by (induction rule: reachable.induct)
    (simp_all add: inv_init inv_run inv_stop inv_timeout inv_message inv_error)

text \<open>
  Claim C8. In every state the hook reaches: \<open>stop()\<close> called while the status is
  \<open>running\<close> or \<open>loading-pyodide\<close> leaves no pending timer and no live worker, clears
  both refs and sets the status to \<open>idle\<close>; and whenever the status is \<open>idle\<close>, the
  events list, stdout and stderr of the state are empty.
\<close>

theorem stop_and_idle:
  "reachable c \<longrightarrow>
     (status (state c) = Running \<or> status (state c) = LoadingPyodide \<longrightarrow>
        status (state (stop c)) = Idle \<and>
        timeoutRef (stop c) = None \<and> pending_timers (stop c) = {} \<and>
        workerRef (stop c) = None \<and> live_workers (stop c) = {}) \<and>
     (status (state c) = Idle \<longrightarrow>
        events (state c) = [] \<and> stdout (state c) = [] \<and> stderr (state c) = [])"
proof
  assume "reachable c"
  then have i: "controller_inv c" by (rule reachable_inv)
  from cleanup_effect [OF i] have
    "status (state c) = Running \<or> status (state c) = LoadingPyodide \<longrightarrow>
        status (state (stop c)) = Idle \<and>
        timeoutRef (stop c) = None \<and> pending_timers (stop c) = {} \<and>
        workerRef (stop c) = None \<and> live_workers (stop c) = {}"
    by (simp add: stop_def Let_def)
  moreover from i have "status (state c) = Idle \<longrightarrow>
        events (state c) = [] \<and> stdout (state c) = [] \<and> stderr (state c) = []"
    by (simp add: controller_inv_def)
  ultimately show "(status (state c) = Running \<or> status (state c) = LoadingPyodide \<longrightarrow>
        status (state (stop c)) = Idle \<and>
        timeoutRef (stop c) = None \<and> pending_timers (stop c) = {} \<and>
        workerRef (stop c) = None \<and> live_workers (stop c) = {}) \<and>
     (status (state c) = Idle \<longrightarrow>
        events (state c) = [] \<and> stdout (state c) = [] \<and> stderr (state c) = [])"
    by blast
qed

lemma trim_x: "trim ''alloc(1)'' \<noteq> []"
  by (simp add: trim_def is_space_def)

theorem stop_and_idle_witness:
  "reachable (on_message 0 (StatusMsg LoadingPyodide) (run Python ''alloc(1)'' controller_init)) \<and>
   status (state (on_message 0 (StatusMsg LoadingPyodide) (run Python ''alloc(1)'' controller_init)))
     = LoadingPyodide \<and>
   live_workers (on_message 0 (StatusMsg LoadingPyodide) (run Python ''alloc(1)'' controller_init)) = {0} \<and>
   pending_timers (on_message 0 (StatusMsg LoadingPyodide) (run Python ''alloc(1)'' controller_init)) = {0} \<and>
   status (state (stop (on_message 0 (StatusMsg LoadingPyodide) (run Python ''alloc(1)'' controller_init))))
     = Idle \<and>
   live_workers (stop (on_message 0 (StatusMsg LoadingPyodide) (run Python ''alloc(1)'' controller_init)))
     = {} \<and>
   pending_timers (stop (on_message 0 (StatusMsg LoadingPyodide) (run Python ''alloc(1)'' controller_init)))
     = {} \<and>
   reachable (stop (on_message 0 (StatusMsg LoadingPyodide) (run Python ''alloc(1)'' controller_init))) \<and>
   events (state (stop (on_message 0 (StatusMsg LoadingPyodide) (run Python ''alloc(1)'' controller_init))))
     = []"
proof -
  let ?c = "on_message 0 (StatusMsg LoadingPyodide) (run Python ''alloc(1)'' controller_init)"
  have l: "live_workers (run Python ''alloc(1)'' controller_init) = {0}"
    using trim_x
    by (simp add: run_def Let_def cleanup_def clear_timeout_ref_def terminate_worker_ref_def
          controller_init_def)
  have "reachable (run Python ''alloc(1)'' controller_init)" by (intro r_run r_init)
  then have r: "reachable ?c" by (rule r_message) (simp add: l)
  then have r2: "reachable (stop ?c)" by (rule r_stop)
  have s: "status (state ?c) = LoadingPyodide" by (simp add: on_message_def)
  have lp: "live_workers ?c = {0}" "pending_timers ?c = {0}"
    using trim_x
    by (simp_all add: on_message_def run_def Let_def cleanup_def clear_timeout_ref_def
          terminate_worker_ref_def controller_init_def)
  from r s stop_and_idle [of ?c] have
    a: "status (state (stop ?c)) = Idle \<and> live_workers (stop ?c) = {} \<and> pending_timers (stop ?c) = {}"
    by simp
  from r2 a stop_and_idle [of "stop ?c"] have "events (state (stop ?c)) = []" by simp
  with r r2 s lp a show ?thesis by simp
qed

subsection \<open>Output captured before a failure\<close>

lemma worker_error_has_no_output:
  "ErrorMsg e out err \<in> set (post_outcome res) \<Longrightarrow> out = [] \<and> err = []"
  by (cases res) auto

lemma python_worker_error_has_no_output:
  "ErrorMsg e out err \<in> set (sandboxWorker_python code importScripts) \<Longrightarrow> out = [] \<and> err = []"
proof -
  assume a: "ErrorMsg e out err \<in> set (sandboxWorker_python code importScripts)"
  obtain statuses res where r: "runPython code importScripts = (statuses, res)"
    by (cases "runPython code importScripts")
  with a have "ErrorMsg e out err \<in> set (post_outcome res)"
    by (auto simp add: sandboxWorker_python_def)
  then show "out = [] \<and> err = []" by (rule worker_error_has_no_output)
qed

text \<open>
  Claim C6 does not hold of the code. User code that prints \<open>hi\<close> and then calls
  \<open>alloc("x", 0)\<close> fails in the tracking primitive after output was captured. On
  the Python surface the capture holds the printed line when the exception leaves the
  module, but the error message the sandbox worker posts has empty \<open>stdout\<close> and
  \<open>stderr\<close>, and so has the state the controller shows. On the JavaScript surface
  the instrumented script posts its error with the captured \<open>hi\<close>, and \<open>runJs\<close>
  rejects with the message alone.
\<close>

theorem error_output_dropped:
  "py_exec [PyPrint ''hi'', PyAlloc (PStr ''x'') (PInt 0)] py_init
     = (py_init\<lparr>py_stdout_capture := ''hi\<newline>''\<rparr>, Some ''alloc: size must be a positive number'') \<and>
   sandboxWorker_python [PyPrint ''hi'', PyAlloc (PStr ''x'') (PInt 0)] True
     = [StatusMsg LoadingPyodide, ErrorMsg ''alloc: size must be a positive number'' [] []] \<and>
   stdout (state (on_message 0 (ErrorMsg ''alloc: size must be a positive number'' [] [])
                    (on_message 0 (StatusMsg LoadingPyodide)
                       (run Python ''print(1)'' controller_init)))) = [] \<and>
   js_run [JsLog [''hi''], JsAlloc (JStr ''x'') (JNum (Finite 0))]
     = PostError ''alloc: size must be a positive number'' ''hi'' [] \<and>
   runJs [JsLog [''hi''], JsAlloc (JStr ''x'') (JNum (Finite 0))]
     = Threw ''alloc: size must be a positive number''"
  by (simp add: run_eval py_run_def js_run_def runPython_def runJs_def runJs_onmessage_def
        posted_object_def on_message_def sandboxWorker_python_def)

end
